theory Spec2Isabelle
  imports Complex_Main
begin

section \<open>JavaScript values\<close>

text \<open>
  Numbers in template strings: the decimal digits of an integer, with a minus sign for a
  negative one.
\<close>

definition digit_char :: "nat \<Rightarrow> char" where
  "digit_char d = ''0123456789'' ! d"

fun string_of_nat :: "nat \<Rightarrow> string" where
  "string_of_nat n =
     (if n < 10 then [digit_char n] else string_of_nat (n div 10) @ [digit_char (n mod 10)])"

declare string_of_nat.simps [simp del]

definition string_of_int :: "int \<Rightarrow> string" where
  "string_of_int i = (if i < 0 then CHR ''-'' # string_of_nat (nat (- i)) else string_of_nat (nat i))"

text \<open>
  Truthiness of the values that reach \<open>||\<close> and \<open>!\<close> in the code: an optional
  string is falsy when absent (\<open>null\<close>, \<open>undefined\<close>) or empty, an optional integer when
  absent or 0.
\<close>

definition falsy_string :: "string option \<Rightarrow> bool" where
  "falsy_string s = (case s of None \<Rightarrow> True | Some v \<Rightarrow> v = [])"

definition falsy_number :: "int option \<Rightarrow> bool" where
  "falsy_number n = (case n of None \<Rightarrow> True | Some v \<Rightarrow> v = 0)"

text \<open>\<open>x || null\<close>.\<close>

definition string_or_null :: "string option \<Rightarrow> string option" where
  "string_or_null s = (if falsy_string s then None else s)"

definition number_or_null :: "int option \<Rightarrow> int option" where
  "number_or_null n = (if falsy_number n then None else n)"

section \<open>The task queue (github_search_tasks)\<close>

text \<open>
  A row of \<open>github_search_tasks\<close> (the schema migration). Dates are kept as the
  \<open>YYYY-MM-DD\<close> strings the client exchanges with the store; timestamps
  (\<open>TIMESTAMPTZ\<close>) are integers counting microseconds, the resolution of the store.
  Nullable columns are options. The column \<open>page\<close> is declared nullable with default 1,
  but no statement of the repository writes NULL to it, so it is an integer here.
\<close>

datatype task_status = Ready | InProgress | Done | NeedsSplit | Disabled

record search_task =
  task_id :: int
  created_from :: string
  created_to :: string
  stars_min :: int
  stars_max :: "int option"
  pushed_after :: "string option"
  status :: task_status
  page :: int
  refresh_every_days :: "int option"
  last_started_at :: "int option"
  last_completed_at :: "int option"
  last_error :: "string option"

subsection \<open>claim_github_tasks (migration 002)\<close>

text \<open>One day (the interval \<open>'1 days'\<close>) in microseconds, the session time zone being UTC.\<close>

definition day_us :: int where
  "day_us = 86400000000"

text \<open>
  \<open>t.last_completed_at IS NULL OR t.last_completed_at < NOW() - (t.refresh_every_days || ' days')::INTERVAL\<close>.
  With \<open>last_completed_at\<close> present and \<open>refresh_every_days\<close> NULL the comparison is NULL,
  which the WHERE clause does not accept.
\<close>

definition due_for_refresh :: "int \<Rightarrow> search_task \<Rightarrow> bool" where
  "due_for_refresh now t =
     (case last_completed_at t of
        None \<Rightarrow> True
      | Some c \<Rightarrow>
          (case refresh_every_days t of
             None \<Rightarrow> False
           | Some d \<Rightarrow> c < now - d * day_us))"

text \<open>The WHERE clause of the \<open>claimed\<close> CTE.\<close>

definition claimable :: "int \<Rightarrow> search_task \<Rightarrow> bool" where
  "claimable now t =
     (if status t = Ready then True
      else if status t = Done then due_for_refresh now t
      else False)"

text \<open>
  \<open>LIMIT p_limit\<close>: NULL means no limit, a negative limit is rejected by the store
  (the statement fails and nothing is updated).
\<close>

datatype claim_error = NegativeLimit

definition apply_limit :: "int option \<Rightarrow> 'a list \<Rightarrow> claim_error + 'a list" where
  "apply_limit p_limit xs =
     (case p_limit of
        None \<Rightarrow> Inr xs
      | Some n \<Rightarrow> if n < 0 then Inl NegativeLimit else Inr (take (nat n) xs))"

text \<open>The SET clause, evaluated on the row as it was before the update.\<close>

definition claim_update :: "int \<Rightarrow> search_task \<Rightarrow> search_task" where
  "claim_update now t =
     t\<lparr> status := InProgress,
        last_started_at := Some now,
        last_error := None,
        page := (if status t = Done then 1 else page t) \<rparr>"

text \<open>
  One call by a single caller (no row is locked by another transaction, so
  \<open>SKIP LOCKED\<close> skips nothing). The table is given in the order of the scan, which the
  query leaves to the store. The result is the rows of RETURNING (the rows as updated)
  and the table after the call. The join \<open>WHERE t.id = c.id\<close> is by id.
\<close>

definition claim_github_tasks ::
  "int \<Rightarrow> int option \<Rightarrow> search_task list \<Rightarrow> claim_error + (search_task list \<times> search_task list)" where
  "claim_github_tasks now p_limit tasks =
     (case apply_limit p_limit (map task_id (filter (claimable now) tasks)) of
        Inl e \<Rightarrow> Inl e
      | Inr claimed \<Rightarrow>
          Inr (map (claim_update now) (filter (\<lambda>t. task_id t \<in> set claimed) tasks),
               map (\<lambda>t. if task_id t \<in> set claimed then claim_update now t else t) tasks))"

section \<open>The search client (GitHub API client, src/unnamed/part_005)\<close>

text \<open>
  What one \<open>fetch\<close> gives: no response at all (the promise rejects), or a response with
  its status, its \<open>Retry-After\<close> header, its body as text and its body as parsed JSON
  (\<open>Inl\<close> the message of the error when \<open>response.json()\<close> throws).
\<close>

datatype 'd fetch_outcome =
    NetworkFailure string
  | Response int "string option" string "string + 'd"

record 'r search_response =
  total_count :: int
  incomplete_results :: bool
  items :: "'r list"

text \<open>The errors \<open>searchRepositories\<close> throws.\<close>

datatype search_error =
    ApiError int string
  | FetchError string
  | JsonError string
  | MaxRetries

definition error_message :: "search_error \<Rightarrow> string" where
  "error_message e =
     (case e of
        ApiError code body \<Rightarrow> ''GitHub API error '' @ string_of_int code @ '': '' @ body
      | FetchError msg \<Rightarrow> msg
      | JsonError msg \<Rightarrow> msg
      | MaxRetries \<Rightarrow> ''Max retry attempts reached'')"

definition maxAttempts :: nat where
  "maxAttempts = 5"

text \<open>\<open>response.ok\<close>: a status from 200 to 299.\<close>

definition response_ok :: "int \<Rightarrow> bool" where
  "response_ok code = (200 \<le> code \<and> code \<le> 299)"

text \<open>
  The retry loop of \<open>searchRepositories\<close>. The server is the function \<open>server\<close>: its
  answer to the request number \<open>n\<close> (from 0) of this call. The loop carries \<open>attempt\<close>
  and the number \<open>n\<close> of requests issued so far, and returns the outcome (\<open>Inl\<close>: the error
  thrown to the caller) with the number of requests issued. The sleeps change no branch
  and are left out.

  The \<open>throw\<close> for a response that is not ok, and a failing \<open>response.json()\<close>, stand
  inside the \<open>try\<close> block, so the \<open>catch\<close> block receives them as it receives a rejected
  \<open>fetch\<close>: it rethrows on the last attempt and otherwise goes on with \<open>attempt + 1\<close>.
\<close>

function search_loop ::
  "(nat \<Rightarrow> 'd fetch_outcome) \<Rightarrow> nat \<Rightarrow> nat \<Rightarrow> (search_error + 'd) \<times> nat" where
  "search_loop server attempt n =
     (if attempt < maxAttempts then
        (case server n of
           NetworkFailure msg \<Rightarrow>
             if attempt = maxAttempts - 1 then (Inl (FetchError msg), n + 1)
             else search_loop server (attempt + 1) (n + 1)
         | Response code retry_after body json \<Rightarrow>
             if code = 403 \<or> code = 429 then search_loop server (attempt + 1) (n + 1)
             else if \<not> response_ok code then
               (if attempt = maxAttempts - 1 then (Inl (ApiError code body), n + 1)
                else search_loop server (attempt + 1) (n + 1))
             else
               (case json of
                  Inl msg \<Rightarrow>
                    if attempt = maxAttempts - 1 then (Inl (JsonError msg), n + 1)
                    else search_loop server (attempt + 1) (n + 1)
                | Inr data \<Rightarrow> (Inr data, n + 1)))
      else (Inl MaxRetries, n))"
  by pat_completeness auto
termination
  by (relation "measure (\<lambda>(server, attempt, n). maxAttempts - attempt)") auto

declare search_loop.simps [simp del]

definition searchRepositories :: "(nat \<Rightarrow> 'd fetch_outcome) \<Rightarrow> (search_error + 'd) \<times> nat" where
  "searchRepositories server = search_loop server 0 0"

text \<open>A server that answers HTTP 500 to the first request and 200 with \<open>data\<close> from then on.\<close>

definition flaky_server :: "'d \<Rightarrow> nat \<Rightarrow> 'd fetch_outcome" where
  "flaky_server data n =
     (if n = 0 then Response 500 None ''Internal Server Error'' (Inl ''Unexpected token'')
      else Response 200 None [] (Inr data))"

section \<open>The discovery driver (discovery cron endpoint, src/unnamed/part_007)\<close>

text \<open>
  The world around one \<open>processTask\<close>: the server's answers to the requests for a page
  (the page the URL names, request number), the two upserts (\<open>Some msg\<close>: the store
  reports an error and the upsert throws), and \<open>MAX_PAGES_PER_TASK\<close>.
\<close>

record 'r discovery_env =
  server_for_page :: "int \<Rightarrow> nat \<Rightarrow> 'r search_response fetch_outcome"
  upsertRepo :: "'r \<Rightarrow> string option"
  upsertSnapshot :: "'r \<Rightarrow> string option"
  MAX_PAGES_PER_TASK :: int

record process_result =
  reposUpserted :: nat
  snapshotsUpserted :: nat
  needsSplit :: bool
  nextPage :: "int option"

text \<open>\<open>params.page || 1\<close> in \<open>searchRepositories\<close>.\<close>

definition page_param :: "int \<Rightarrow> int" where
  "page_param p = (if p = 0 then 1 else p)"

text \<open>
  The loop over \<open>response.items\<close>: upsert the repository, count it, upsert its snapshot,
  count it. \<open>Inl\<close> is the message of the error thrown.
\<close>

fun upsert_items ::
  "'r discovery_env \<Rightarrow> 'r list \<Rightarrow> nat \<Rightarrow> nat \<Rightarrow> string + (nat \<times> nat)" where
  "upsert_items env [] repos snaps = Inr (repos, snaps)"
| "upsert_items env (repo # rest) repos snaps =
     (case upsertRepo env repo of
        Some msg \<Rightarrow> Inl msg
      | None \<Rightarrow>
          (case upsertSnapshot env repo of
             Some msg \<Rightarrow> Inl msg
           | None \<Rightarrow> upsert_items env rest (repos + 1) (snaps + 1)))"

text \<open>
  The page loop of \<open>processTask\<close>, from \<open>pageOffset\<close> on. Beside the function's result
  it returns the pages it asked \<open>searchRepositories\<close> for, in order (\<open>fetched\<close> holds
  the earlier ones).
\<close>

function process_pages ::
  "'r discovery_env \<Rightarrow> int \<Rightarrow> int \<Rightarrow> int list \<Rightarrow> process_result
     \<Rightarrow> int list \<times> (string + process_result)" where
  "process_pages env currentPage pageOffset fetched acc =
     (if pageOffset < MAX_PAGES_PER_TASK env then
        (let page = currentPage + pageOffset in
         case fst (searchRepositories (server_for_page env (page_param page))) of
           Inl e \<Rightarrow> (fetched @ [page], Inl (error_message e))
         | Inr response \<Rightarrow>
             (case upsert_items env (items response) (reposUpserted acc) (snapshotsUpserted acc) of
                Inl msg \<Rightarrow> (fetched @ [page], Inl msg)
              | Inr (repos, snaps) \<Rightarrow>
                  if length (items response) < 100 then
                    (fetched @ [page],
                     Inr (acc\<lparr>reposUpserted := repos, snapshotsUpserted := snaps, nextPage := None\<rparr>))
                  else if page \<ge> 10 \<and> length (items response) = 100 then
                    (fetched @ [page],
                     Inr (acc\<lparr>reposUpserted := repos, snapshotsUpserted := snaps,
                               needsSplit := True, nextPage := None\<rparr>))
                  else
                    process_pages env currentPage (pageOffset + 1) (fetched @ [page])
                      (acc\<lparr>reposUpserted := repos, snapshotsUpserted := snaps,
                            nextPage := Some (page + 1)\<rparr>)))
      else (fetched, Inr acc))"
  by pat_completeness auto
termination
  by (relation "measure (\<lambda>(env, currentPage, pageOffset, fetched, acc).
        nat (MAX_PAGES_PER_TASK env - pageOffset))") auto

declare process_pages.simps [simp del]

definition processTask :: "'r discovery_env \<Rightarrow> search_task \<Rightarrow> int list \<times> (string + process_result)" where
  "processTask env task =
     process_pages env (page task) 0 []
       \<lparr>reposUpserted = 0, snapshotsUpserted = 0, needsSplit = False, nextPage = None\<rparr>"

text \<open>
  \<open>updateTaskStatus\<close>, on the row it addresses: \<open>now\<close> is the clock of the driver, in
  the unit of the store. The update of the store itself is taken to succeed.
\<close>

definition updateTaskStatus ::
  "int \<Rightarrow> task_status \<Rightarrow> int option \<Rightarrow> string option \<Rightarrow> search_task \<Rightarrow> search_task" where
  "updateTaskStatus now new_status next_page err task =
     task\<lparr> status := new_status,
           last_completed_at := (if new_status = Done then Some now else None),
           last_error := string_or_null err,
           page := (case next_page of
                      Some p \<Rightarrow> p
                    | None \<Rightarrow> if new_status = Done then 1 else page task) \<rparr>"

text \<open>
  The body of the loop over the claimed tasks in \<open>GET\<close>: process the task, then record
  the new status; an error thrown by \<open>processTask\<close> leaves the task \<open>in_progress\<close> with
  the message and the page it had. The result is the pages fetched and the row afterwards.
\<close>

definition run_claimed_task :: "int \<Rightarrow> 'r discovery_env \<Rightarrow> search_task \<Rightarrow> int list \<times> search_task" where
  "run_claimed_task now env task =
     (case processTask env task of
        (fetched, Inr result) \<Rightarrow>
          (fetched,
           updateTaskStatus now
             (if needsSplit result then NeedsSplit
              else if nextPage result = None then Done else InProgress)
             (nextPage result) None task)
      | (fetched, Inl msg) \<Rightarrow>
          (fetched, updateTaskStatus now InProgress (Some (page task)) (Some msg) task))"

text \<open>
  The remote search API for a partition whose results are \<open>results\<close>, in the order of
  the query: page \<open>p\<close> holds the results from \<open>100 * (p - 1)\<close> on, 100 at most, and only
  the first 1000 results can be reached (pages 1 to 10); every request is answered at once
  with HTTP 200.
\<close>

definition partition_server :: "'r list \<Rightarrow> int \<Rightarrow> nat \<Rightarrow> 'r search_response fetch_outcome" where
  "partition_server results p n =
     (if 1 \<le> p \<and> p \<le> 10 then
        Response 200 None []
          (Inr \<lparr>total_count = int (length results), incomplete_results = False,
                items = take 100 (drop (100 * nat (p - 1)) results)\<rparr>)
      else Response 422 None ''Only the first 1000 search results are available''
             (Inl ''Unexpected token''))"

definition partition_env :: "'r list \<Rightarrow> int \<Rightarrow> 'r discovery_env" where
  "partition_env results max_pages =
     \<lparr>server_for_page = partition_server results,
      upsertRepo = (\<lambda>r. None), upsertSnapshot = (\<lambda>r. None),
      MAX_PAGES_PER_TASK = max_pages\<rparr>"

text \<open>
  The number of pages a crawl from page 1 asks the remote API for when the partition has
  \<open>k\<close> results and the page budget does not end it: pages are full while \<open>100 * p \<le> k\<close>,
  the first page that is not full ends the crawl, and so does a full page 10.
\<close>

definition pages_needed :: "nat \<Rightarrow> int" where
  "pages_needed k = (if k < 1000 then int (k div 100) + 1 else 10)"

text \<open>A task as the seeder creates it and the claim hands it out: page 1, in progress.\<close>

definition fresh_task :: search_task where
  "fresh_task =
     \<lparr>task_id = 1, created_from = ''2024-01-01'', created_to = ''2024-01-31'', stars_min = 100,
      stars_max = Some 200, pushed_after = None, status = InProgress, page = 1,
      refresh_every_days = Some 7, last_started_at = Some 0, last_completed_at = None,
      last_error = None\<rparr>"

text \<open>A queue for the examples: a ready task on page 4, one in progress, a done one that is due, a ready one.\<close>

definition example_queue :: "search_task list" where
  "example_queue =
    [\<lparr>task_id = 1, created_from = ''2024-01-01'', created_to = ''2024-01-31'', stars_min = 100,
      stars_max = Some 200, pushed_after = None, status = Ready, page = 4,
      refresh_every_days = Some 7, last_started_at = None, last_completed_at = None,
      last_error = Some ''boom''\<rparr>,
     \<lparr>task_id = 2, created_from = ''2024-01-01'', created_to = ''2024-01-31'', stars_min = 201,
      stars_max = Some 500, pushed_after = None, status = InProgress, page = 2,
      refresh_every_days = Some 7, last_started_at = Some 5, last_completed_at = None,
      last_error = None\<rparr>,
     \<lparr>task_id = 3, created_from = ''2024-01-01'', created_to = ''2024-01-31'', stars_min = 501,
      stars_max = Some 1000, pushed_after = None, status = Done, page = 6,
      refresh_every_days = Some 7, last_started_at = Some 5, last_completed_at = Some 0,
      last_error = None\<rparr>,
     \<lparr>task_id = 4, created_from = ''2024-01-01'', created_to = ''2024-01-31'', stars_min = 1001,
      stars_max = Some 5000, pushed_after = None, status = Ready, page = 1,
      refresh_every_days = Some 7, last_started_at = None, last_completed_at = None,
      last_error = None\<rparr>]"

section \<open>The scoring driver (scoring cron endpoint in src/web/src/app/layout.tsx, migration 003)\<close>

text \<open>
  The columns of \<open>github_repo_snapshots\<close> the scoring reads. \<open>captured_at\<close> counts
  milliseconds, the resolution of the timestamps the discovery driver writes
  (\<open>toISOString\<close>) and of the JavaScript \<open>Date\<close> the fallback path computes with.
\<close>

record snapshot =
  snap_repo_id :: int
  captured_at :: int
  stars_count :: int

text \<open>
  The payload of the upsert into \<open>github_repo_trends\<close>, without \<open>computed_at\<close> (the
  clock at the upsert). JavaScript numbers are taken as exact: the growth in percent
  and the score are reals.
\<close>

record trend =
  trend_repo_id :: int
  stars_now :: int
  stars_prev :: "int option"
  prev_captured_at :: "int option"
  abs_growth_14d :: "int option"
  pct_growth_14d :: "real option"
  score :: "real option"
  is_new :: bool

text \<open>Fourteen days in milliseconds (\<open>INTERVAL '14 days'\<close>, \<open>setDate(getDate() - 14)\<close>; UTC).\<close>

definition fourteen_days :: int where
  "fourteen_days = 14 * 86400000"

text \<open>
  \<open>ORDER BY captured_at DESC\<close> with \<open>DISTINCT ON\<close> or \<open>LIMIT 1\<close>: the row with the
  greatest \<open>captured_at\<close>; among equal ones the store chooses, here the first of the table.
\<close>

fun latest_snapshot :: "snapshot list \<Rightarrow> snapshot option" where
  "latest_snapshot [] = None"
| "latest_snapshot (s # rest) =
     (case latest_snapshot rest of
        None \<Rightarrow> Some s
      | Some m \<Rightarrow> if captured_at s < captured_at m then Some m else Some s)"

definition snapshots_of :: "snapshot list \<Rightarrow> int \<Rightarrow> snapshot list" where
  "snapshots_of snaps rid = filter (\<lambda>s. snap_repo_id s = rid) snaps"

text \<open>The latest snapshot of a repository that is at least 14 days older than \<open>latest\<close>.\<close>

definition previous_snapshot :: "snapshot list \<Rightarrow> int \<Rightarrow> snapshot \<Rightarrow> snapshot option" where
  "previous_snapshot snaps rid latest =
     latest_snapshot
       (filter (\<lambda>s. captured_at s \<le> captured_at latest - fourteen_days) (snapshots_of snaps rid))"

text \<open>\<open>computeScore\<close>.\<close>

definition computeScore :: "int \<Rightarrow> real \<Rightarrow> real" where
  "computeScore absGrowth pctGrowth =
     (if absGrowth \<le> 0 then 0 else real_of_int absGrowth * ln (1 + max pctGrowth 0))"

text \<open>A row of the result of \<open>compute_repo_trends_14d\<close>.\<close>

record trend_input =
  in_repo_id :: int
  in_stars_now :: int
  in_stars_prev :: "int option"
  in_prev_captured_at :: "int option"

text \<open>
  \<open>compute_repo_trends_14d\<close> as migration 003 defines it. The function is declared
  \<open>RETURNS TABLE (repo_id, ...)\<close>, which makes \<open>repo_id\<close> a variable of the PL/pgSQL body
  beside the column of \<open>github_repo_snapshots\<close>, and the first CTE names \<open>repo_id\<close> without
  a qualifier. The store refuses such a query when the function is called (error 42702),
  whatever the table holds: the function raises and returns no row.
\<close>

definition ambiguous_repo_id :: string where
  "ambiguous_repo_id =
     ''column reference '' @ [CHR 0x22] @ ''repo_id'' @ [CHR 0x22] @ '' is ambiguous''"

definition compute_repo_trends_14d :: "snapshot list \<Rightarrow> string + trend_input list" where
  "compute_repo_trends_14d snaps = Inl ambiguous_repo_id"

text \<open>
  \<open>supabaseServer.rpc("compute_repo_trends_14d")\<close>: \<open>Inl\<close> is the message of the error,
  \<open>Inr\<close> the rows. \<open>missing\<close> is the message of the store when migration 003 was not
  applied and it has no such function, \<open>None\<close> when the function is there.
\<close>

definition rpc_compute_repo_trends_14d ::
  "string option \<Rightarrow> snapshot list \<Rightarrow> string + trend_input list" where
  "rpc_compute_repo_trends_14d missing snaps =
     (case missing of
        Some message \<Rightarrow> Inl message
      | None \<Rightarrow> compute_repo_trends_14d snaps)"

text \<open>\<open>String.prototype.includes\<close>.\<close>

fun starts_with :: "string \<Rightarrow> string \<Rightarrow> bool" where
  "starts_with s [] = True"
| "starts_with [] (c # cs) = False"
| "starts_with (x # xs) (c # cs) = (if x = c then starts_with xs cs else False)"

fun js_includes :: "string \<Rightarrow> string \<Rightarrow> bool" where
  "js_includes [] sub = (sub = [])"
| "js_includes (x # xs) sub = (if starts_with (x # xs) sub then True else js_includes xs sub)"

text \<open>
  The body of the loop over the RPC's rows. \<open>isNew = !starsPrev\<close> holds for NULL and for
  0; \<open>starsPrev !== undefined\<close> holds for every row (a missing previous snapshot is
  \<open>null\<close>).
\<close>

definition rpc_trend :: "trend_input \<Rightarrow> trend" where
  "rpc_trend row =
     (let starsNow = in_stars_now row;
          starsPrev = in_stars_prev row;
          isNew = falsy_number starsPrev
      in (case starsPrev of
            Some prev \<Rightarrow>
              if isNew then
                \<lparr>trend_repo_id = in_repo_id row, stars_now = starsNow,
                 stars_prev = number_or_null starsPrev,
                 prev_captured_at = in_prev_captured_at row,
                 abs_growth_14d = None, pct_growth_14d = None, score = None, is_new = isNew\<rparr>
              else
                (let absGrowth = starsNow - prev;
                     pctGrowth = real_of_int absGrowth / real_of_int (max prev 1)
                 in \<lparr>trend_repo_id = in_repo_id row, stars_now = starsNow,
                     stars_prev = number_or_null starsPrev,
                     prev_captured_at = in_prev_captured_at row,
                     abs_growth_14d = Some absGrowth, pct_growth_14d = Some pctGrowth,
                     score = Some (computeScore absGrowth pctGrowth), is_new = isNew\<rparr>)
          | None \<Rightarrow>
              \<lparr>trend_repo_id = in_repo_id row, stars_now = starsNow,
               stars_prev = number_or_null starsPrev,
               prev_captured_at = in_prev_captured_at row,
               abs_growth_14d = None, pct_growth_14d = None, score = None, is_new = isNew\<rparr>))"

text \<open>
  The body of the fallback loop, for one repository: \<open>None\<close> when it has no snapshot
  (\<open>continue\<close>). \<open>isNew = !prevSnapshot\<close>.
\<close>

definition fallback_trend :: "snapshot list \<Rightarrow> int \<Rightarrow> trend option" where
  "fallback_trend snaps rid =
     (case latest_snapshot (snapshots_of snaps rid) of
        None \<Rightarrow> None
      | Some nowSnapshot \<Rightarrow>
          (let starsNow = stars_count nowSnapshot in
           case previous_snapshot snaps rid nowSnapshot of
             None \<Rightarrow>
               Some \<lparr>trend_repo_id = rid, stars_now = starsNow, stars_prev = None,
                     prev_captured_at = None,
                     abs_growth_14d = None, pct_growth_14d = None, score = None, is_new = True\<rparr>
           | Some prevSnapshot \<Rightarrow>
               (let starsPrev = stars_count prevSnapshot;
                    absGrowth = starsNow - starsPrev;
                    pctGrowth = real_of_int absGrowth / real_of_int (max starsPrev 1)
                in Some \<lparr>trend_repo_id = rid, stars_now = starsNow,
                         stars_prev = number_or_null (Some starsPrev),
                         prev_captured_at = Some (captured_at prevSnapshot),
                         abs_growth_14d = Some absGrowth, pct_growth_14d = Some pctGrowth,
                         score = Some (computeScore absGrowth pctGrowth), is_new = False\<rparr>)))"

text \<open>
  The \<open>try\<close> block of \<open>GET\<close>, from the result of the RPC: an error that names a missing
  function starts the fallback loop over the repositories of \<open>github_repos\<close>, any other
  error is thrown again (the response is HTTP 500 with the message, and no trend is
  written), and rows go through the batch loop. A completed pass gives the trends it
  upserted, in order; the upserts are taken to succeed.
\<close>

datatype scoring_outcome = ScoringFailed string | ScoringCompleted "trend list"

definition scoring_pass ::
  "string + trend_input list \<Rightarrow> int list \<Rightarrow> snapshot list \<Rightarrow> scoring_outcome" where
  "scoring_pass rpc_result repos snaps =
     (case rpc_result of
        Inl message \<Rightarrow>
          if js_includes message ''function'' \<and> js_includes message ''does not exist''
          then ScoringCompleted (List.map_filter (fallback_trend snaps) repos)
          else ScoringFailed message
      | Inr trends \<Rightarrow> ScoringCompleted (map rpc_trend trends))"

text \<open>A message of the store for a function it does not have.\<close>

definition missing_function :: string where
  "missing_function = ''function public.compute_repo_trends_14d() does not exist''"

text \<open>
  A history for the examples: repository 1 had 0 stars at time 0 and has 5 stars fourteen
  days later.
\<close>

definition zero_history :: "snapshot list" where
  "zero_history =
     [\<lparr>snap_repo_id = 1, captured_at = 0, stars_count = 0\<rparr>,
      \<lparr>snap_repo_id = 1, captured_at = fourteen_days, stars_count = 5\<rparr>]"

text \<open>Repository 2 had 50 stars at time 0 and has 80 stars fifteen days later.\<close>

definition growth_history :: "snapshot list" where
  "growth_history =
     [\<lparr>snap_repo_id = 2, captured_at = 0, stars_count = 50\<rparr>,
      \<lparr>snap_repo_id = 2, captured_at = 15 * 86400000, stars_count = 80\<rparr>]"

section \<open>The task seeder (src/web/src/lib/github/task-seeder.ts)\<close>

text \<open>
  A calendar date as \<open>getFullYear\<close>, \<open>getMonth\<close> (from 0) and \<open>getDate\<close> give it, in the
  time zone of the process.
\<close>

record ymd =
  ymd_year :: int
  ymd_month :: int
  ymd_day :: int

definition date_less :: "ymd \<Rightarrow> ymd \<Rightarrow> bool" where
  "date_less a b =
     (if ymd_year a = ymd_year b then
        (if ymd_month a = ymd_month b then ymd_day a < ymd_day b
         else ymd_month a < ymd_month b)
      else ymd_year a < ymd_year b)"

definition leap_year :: "int \<Rightarrow> bool" where
  "leap_year y =
     (if y mod 400 = 0 then True else if y mod 100 = 0 then False else y mod 4 = 0)"

text \<open>\<open>new Date(year, month + 1, 0).getDate()\<close>: the last day of the month.\<close>

definition days_in_month :: "int \<Rightarrow> int \<Rightarrow> int" where
  "days_in_month y m =
     (if m = 1 then (if leap_year y then 29 else 28)
      else if m = 3 \<or> m = 5 \<or> m = 8 \<or> m = 10 then 30
      else 31)"

text \<open>\<open>padStart(2, "0")\<close>.\<close>

definition pad2 :: "string \<Rightarrow> string" where
  "pad2 s = replicate (2 - length s) (CHR ''0'') @ s"

definition formatDate :: "ymd \<Rightarrow> string" where
  "formatDate d =
     string_of_int (ymd_year d) @ ''-'' @ pad2 (string_of_int (ymd_month d + 1)) @ ''-''
       @ pad2 (string_of_int (ymd_day d))"

text \<open>
  The loop of \<open>generateMonthlyWindows\<close>. \<open>current\<close> is always the first day of a month;
  it is kept as the number \<open>12 * year + month\<close>, so that \<open>new Date(year, month + 1, 1)\<close>
  is the next number. \<open>today\<close> is the date of the clock; the time of day plays no part,
  the dates compared with it being midnights. (Years are those the \<open>Date\<close> constructor
  takes as they are, from 100 on.)
\<close>

definition first_of_month :: "int \<Rightarrow> ymd" where
  "first_of_month n = \<lparr>ymd_year = n div 12, ymd_month = n mod 12, ymd_day = 1\<rparr>"

function monthly_windows :: "ymd \<Rightarrow> int \<Rightarrow> (string \<times> string) list" where
  "monthly_windows today current =
     (if \<not> date_less today (first_of_month current) then
        (let year = current div 12;
             month = current mod 12;
             from = \<lparr>ymd_year = year, ymd_month = month, ymd_day = 1\<rparr>;
             to = \<lparr>ymd_year = year, ymd_month = month, ymd_day = days_in_month year month\<rparr>;
             windowTo = (if date_less today to then today else to)
         in (formatDate from, formatDate windowTo) # monthly_windows today (current + 1))
      else [])"
  by pat_completeness auto
termination
proof (relation "measure (\<lambda>(today, current). nat (12 * ymd_year today + 12 - current))")
  show "wf (measure (\<lambda>(today, current). nat (12 * ymd_year today + 12 - current)))"
    by simp
next
  fix today :: ymd and current :: int
  assume "\<not> date_less today (first_of_month current)"
  then have "current div 12 \<le> ymd_year today"
    by (auto simp: date_less_def first_of_month_def split: if_splits)
  then have "current < 12 * ymd_year today + 12"
    by linarith
  then show "((today, current + 1), (today, current))
      \<in> measure (\<lambda>(today, current). nat (12 * ymd_year today + 12 - current))"
    by simp
qed

declare monthly_windows.simps [simp del]

text \<open>
  \<open>generateMonthlyWindows\<close>: \<open>start\<close> is the date \<open>new Date(startDate)\<close> denotes, \<open>None\<close>
  when the string is no date (every comparison with an invalid date is false, so there is
  no window).
\<close>

definition generateMonthlyWindows :: "ymd option \<Rightarrow> ymd \<Rightarrow> (string \<times> string) list" where
  "generateMonthlyWindows start today =
     (case start of
        None \<Rightarrow> []
      | Some s \<Rightarrow> monthly_windows today (12 * ymd_year s + ymd_month s))"

record seeder_config =
  createdFrom :: "ymd option"
  pushedAfter :: "string option"
  starsMin :: int
  refreshEveryDays :: "int option"

definition DEFAULT_STAR_BANDS :: "(int \<times> int option) list" where
  "DEFAULT_STAR_BANDS =
     [(100, Some 200), (201, Some 500), (501, Some 1000), (1001, Some 5000),
      (5001, Some 20000), (20001, None)]"

text \<open>The rows \<open>seedTasks\<close> inserts.\<close>

record task_insert =
  ins_created_from :: string
  ins_created_to :: string
  ins_stars_min :: int
  ins_stars_max :: "int option"
  ins_pushed_after :: "string option"
  ins_refresh_every_days :: int
  ins_status :: task_status

text \<open>\<open>${x || "null"}\<close> for an optional number and an optional string.\<close>

definition number_or_null_text :: "int option \<Rightarrow> string" where
  "number_or_null_text n = (case number_or_null n of None \<Rightarrow> ''null'' | Some v \<Rightarrow> string_of_int v)"

definition string_or_null_text :: "string option \<Rightarrow> string" where
  "string_or_null_text s = (case string_or_null s of None \<Rightarrow> ''null'' | Some v \<Rightarrow> v)"

text \<open>The key of a row read from the store.\<close>

definition existing_key :: "search_task \<Rightarrow> string" where
  "existing_key t =
     created_from t @ ''|'' @ created_to t @ ''|'' @ string_of_int (stars_min t) @ ''|''
       @ number_or_null_text (stars_max t) @ ''|'' @ string_or_null_text (pushed_after t)"

text \<open>
  The body of the inner loop for a window and a band, up to the existence check: nothing
  when the band lies below \<open>config.starsMin\<close> (\<open>continue\<close>), else the key and the row that
  would be inserted.
\<close>

definition candidate ::
  "seeder_config \<Rightarrow> string \<times> string \<Rightarrow> int \<times> int option \<Rightarrow> (string \<times> task_insert) option" where
  "candidate config window band =
     (if (case snd band of None \<Rightarrow> False | Some band_max \<Rightarrow> starsMin config > band_max) then None
      else
        (let stars_min_eff = max (starsMin config) (fst band);
             stars_max_eff = number_or_null (snd band);
             key = fst window @ ''|'' @ snd window @ ''|'' @ string_of_int stars_min_eff @ ''|''
                     @ number_or_null_text stars_max_eff @ ''|''
                     @ string_or_null_text (pushedAfter config)
         in Some (key,
              \<lparr>ins_created_from = fst window, ins_created_to = snd window,
               ins_stars_min = stars_min_eff, ins_stars_max = stars_max_eff,
               ins_pushed_after = string_or_null (pushedAfter config),
               ins_refresh_every_days =
                 (case number_or_null (refreshEveryDays config) of None \<Rightarrow> 7 | Some d \<Rightarrow> d),
               ins_status = Ready\<rparr>)))"

definition candidates :: "seeder_config \<Rightarrow> (string \<times> string) list \<Rightarrow> (string \<times> task_insert) list" where
  "candidates config windows =
     concat (map (\<lambda>window. List.map_filter (candidate config window) DEFAULT_STAR_BANDS) windows)"

text \<open>
  The store's side of an insert: the row with its defaults (page 1, no timestamps, no
  error) and the next id of the sequence, here the position in the table. The columns
  \<open>created_from\<close>, \<open>created_to\<close> and \<open>pushed_after\<close> are of type DATE: the store keeps
  the date a text denotes and gives it back in its own form, \<open>date_column\<close> being the
  text it gives back for a text written. (A text that denotes no date makes the insert
  fail, which is the business of \<open>insert_error\<close> below.)
\<close>

definition new_row :: "(string \<Rightarrow> string) \<Rightarrow> int \<Rightarrow> task_insert \<Rightarrow> search_task" where
  "new_row date_column i r =
     \<lparr>task_id = i, created_from = date_column (ins_created_from r),
      created_to = date_column (ins_created_to r),
      stars_min = ins_stars_min r, stars_max = ins_stars_max r,
      pushed_after = map_option date_column (ins_pushed_after r), status = ins_status r, page = 1,
      refresh_every_days = Some (ins_refresh_every_days r),
      last_started_at = None, last_completed_at = None, last_error = None\<rparr>"

fun insert_rows ::
  "(string \<Rightarrow> string) \<Rightarrow> search_task list \<Rightarrow> task_insert list \<Rightarrow> search_task list" where
  "insert_rows date_column store [] = store"
| "insert_rows date_column store (r # rest) =
     insert_rows date_column (store @ [new_row date_column (int (length store) + 1) r]) rest"

text \<open>
  The batch loop: \<open>insert_error b\<close> is the error the store reports for the batch number
  \<open>b\<close>, if any; the function then throws, and the batches before stay inserted.
\<close>

function insert_batches ::
  "(string \<Rightarrow> string) \<Rightarrow> (nat \<Rightarrow> string option) \<Rightarrow> task_insert list \<Rightarrow> nat \<Rightarrow> nat
     \<Rightarrow> search_task list \<Rightarrow> (string + nat) \<times> search_task list" where
  "insert_batches date_column insert_error tasksToInsert i created store =
     (if i < length tasksToInsert then
        (let batch = take 500 (drop i tasksToInsert) in
         case insert_error (i div 500) of
           Some msg \<Rightarrow> (Inl (''Failed to insert tasks: '' @ msg), store)
         | None \<Rightarrow>
             insert_batches date_column insert_error tasksToInsert (i + 500)
               (created + length batch) (insert_rows date_column store batch))
      else (Inr created, store))"
  by pat_completeness auto
termination
  by (relation "measure (\<lambda>(date_column, insert_error, tasksToInsert, i, created, store).
        length tasksToInsert - i)") auto

declare insert_batches.simps [simp del]

text \<open>
  \<open>seedTasks\<close>: the result (\<open>Inl\<close> the error thrown, \<open>Inr\<close> the counts created and
  skipped) and the table afterwards. The read of the existing rows is taken to succeed and
  to return the whole table (the code ignores its error and reads no rows then).
\<close>

definition seedTasks ::
  "(string \<Rightarrow> string) \<Rightarrow> (nat \<Rightarrow> string option) \<Rightarrow> ymd \<Rightarrow> seeder_config \<Rightarrow> search_task list
     \<Rightarrow> (string + nat \<times> nat) \<times> search_task list" where
  "seedTasks date_column insert_error today config store =
     (let windows = generateMonthlyWindows (createdFrom config) today;
          existingKeys = set (map existing_key store);
          cands = candidates config windows;
          skipped = length (filter (\<lambda>c. fst c \<in> existingKeys) cands);
          tasksToInsert = map snd (filter (\<lambda>c. fst c \<notin> existingKeys) cands)
      in case insert_batches date_column insert_error tasksToInsert 0 0 store of
           (Inl msg, store') \<Rightarrow> (Inl msg, store')
         | (Inr created, store') \<Rightarrow> (Inr (created, skipped), store'))"

text \<open>
  A DATE column on a text of the form year-month-day, each part written in digits: the
  date comes back as \<open>YYYY-MM-DD\<close>, so \<open>2023-6-1\<close> comes back as \<open>2023-06-01\<close> and
  \<open>2024-01-15\<close> as it was written. Texts of another form play no part in the examples and
  are given back as they are.
\<close>

fun split_dash :: "string \<Rightarrow> string list" where
  "split_dash [] = [[]]"
| "split_dash (c # cs) =
     (if c = CHR ''-'' then [] # split_dash cs
      else (case split_dash cs of
              [] \<Rightarrow> [[c]]
            | part # parts \<Rightarrow> (c # part) # parts))"

fun digits_value :: "nat \<Rightarrow> string \<Rightarrow> nat option" where
  "digits_value n [] = Some n"
| "digits_value n (c # cs) =
     (if c \<in> set ''0123456789'' then digits_value (10 * n + (of_char c - 48)) cs else None)"

definition number_of_text :: "string \<Rightarrow> nat option" where
  "number_of_text s = (if s = [] then None else digits_value 0 s)"

definition pad_zeros :: "nat \<Rightarrow> string \<Rightarrow> string" where
  "pad_zeros k s = replicate (k - length s) (CHR ''0'') @ s"

definition iso_date_column :: "string \<Rightarrow> string" where
  "iso_date_column s =
     (case map number_of_text (split_dash s) of
        [Some y, Some m, Some d] \<Rightarrow>
          pad_zeros 4 (string_of_nat y) @ ''-'' @ pad_zeros 2 (string_of_nat m) @ ''-''
            @ pad_zeros 2 (string_of_nat d)
      | _ \<Rightarrow> s)"

text \<open>The default configuration, seeding from January 2024, and a store that reports no error.\<close>

definition example_config :: seeder_config where
  "example_config =
     \<lparr>createdFrom = Some \<lparr>ymd_year = 2024, ymd_month = 0, ymd_day = 1\<rparr>,
      pushedAfter = None, starsMin = 100, refreshEveryDays = Some 7\<rparr>"

definition no_insert_error :: "nat \<Rightarrow> string option" where
  "no_insert_error b = None"

text \<open>The same configuration with a pushed-after floor that is not written as \<open>YYYY-MM-DD\<close>.\<close>

definition floor_config :: seeder_config where
  "floor_config = example_config\<lparr>pushedAfter := Some ''2023-6-1''\<rparr>"

text \<open>And with the same floor written as \<open>YYYY-MM-DD\<close>.\<close>

definition dated_floor_config :: seeder_config where
  "dated_floor_config = example_config\<lparr>pushedAfter := Some ''2023-06-01''\<rparr>"

text \<open>Two days of the clock for the examples.\<close>

definition january_15 :: ymd where
  "january_15 = \<lparr>ymd_year = 2024, ymd_month = 0, ymd_day = 15\<rparr>"

definition january_16 :: ymd where
  "january_16 = \<lparr>ymd_year = 2024, ymd_month = 0, ymd_day = 16\<rparr>"

section \<open>The shared-secret check of the cron endpoints\<close>

text \<open>
  What an endpoint did: the HTTP status of its response and the operations on the store
  it issued, in order.
\<close>

record 'e endpoint_run =
  http_status :: int
  store_operations :: "'e list"

text \<open>
  The head of both \<open>GET\<close> handlers. \<open>expectedSecret\<close> is \<open>process.env.CRON_SECRET\<close>
  (\<open>None\<close> when unset), \<open>secret\<close> the query parameter (\<open>None\<close> when absent), and
  \<open>handler\<close> what the rest of the function does once the check has passed.
\<close>

definition GET_discover :: "string option \<Rightarrow> string option \<Rightarrow> 'e endpoint_run \<Rightarrow> 'e endpoint_run" where
  "GET_discover expectedSecret secret handler =
     (if falsy_string expectedSecret \<or> secret \<noteq> expectedSecret
      then \<lparr>http_status = 401, store_operations = []\<rparr>
      else handler)"

definition GET_score :: "string option \<Rightarrow> string option \<Rightarrow> 'e endpoint_run \<Rightarrow> 'e endpoint_run" where
  "GET_score expectedSecret secret handler =
     (if falsy_string expectedSecret \<or> secret \<noteq> expectedSecret
      then \<lparr>http_status = 401, store_operations = []\<rparr>
      else handler)"

section \<open>Properties of the task queue\<close>

lemma apply_limit_subset:
  "apply_limit p_limit xs = Inr ys \<Longrightarrow> set ys \<subseteq> set xs"
  by (auto simp: apply_limit_def split: option.splits if_splits dest: in_set_takeD)

lemma apply_limit_length:
  "apply_limit (Some n) xs = Inr ys \<Longrightarrow> length ys \<le> nat n"
  by (auto simp: apply_limit_def split: if_splits)

lemma apply_limit_distinct:
  "apply_limit p_limit xs = Inr ys \<Longrightarrow> distinct xs \<Longrightarrow> distinct ys"
  by (auto simp: apply_limit_def split: option.splits if_splits)

lemma claimed_rows_claimable:
  assumes "distinct (map task_id tasks)"
    and "set claimed \<subseteq> task_id ` set (filter (claimable now) tasks)"
    and "t \<in> set tasks" and "task_id t \<in> set claimed"
  shows "claimable now t"
proof -
  from assms(2,4) obtain u where u: "u \<in> set tasks" "claimable now u" "task_id u = task_id t"
    by auto
  from assms(1) u(1) assms(3) u(3) have "u = t"
    by (meson distinct_map inj_onD)
  with u(2) show ?thesis by simp
qed

lemma length_filter_ids:
  assumes "distinct (map task_id tasks)"
  shows "length (filter (\<lambda>t. task_id t \<in> set claimed) tasks) \<le> length claimed"
proof -
  let ?ids = "filter (\<lambda>i. i \<in> set claimed) (map task_id tasks)"
  have "length (filter (\<lambda>t. task_id t \<in> set claimed) tasks) = length ?ids"
    by (simp add: filter_map comp_def)
  also have "\<dots> = card (set ?ids)"
    using assms by (simp only: distinct_card distinct_filter)
  also have "\<dots> \<le> card (set claimed)"
    by (rule card_mono) auto
  also have "\<dots> \<le> length claimed"
    by (rule card_length)
  finally show ?thesis .
qed

lemma length_filter_ids_eq:
  assumes "distinct (map task_id tasks)" and "distinct claimed"
    and "set claimed \<subseteq> task_id ` set tasks"
  shows "length (filter (\<lambda>t. task_id t \<in> set claimed) tasks) = length claimed"
proof -
  let ?ids = "filter (\<lambda>i. i \<in> set claimed) (map task_id tasks)"
  have "length (filter (\<lambda>t. task_id t \<in> set claimed) tasks) = length ?ids"
    by (simp add: filter_map comp_def)
  also have "\<dots> = card (set ?ids)"
    using assms(1) by (simp only: distinct_card distinct_filter)
  also have "set ?ids = set claimed"
    using assms(3) by auto
  also have "card (set claimed) = length claimed"
    using assms(2) by (rule distinct_card)
  finally show ?thesis .
qed

lemma apply_limit_count:
  "apply_limit p_limit xs = Inr ys \<Longrightarrow>
   length ys = (case p_limit of None \<Rightarrow> length xs | Some n \<Rightarrow> min (nat n) (length xs))"
  by (auto simp: apply_limit_def split: option.splits if_splits)

text \<open>
  C1. A call of \<open>claim_github_tasks\<close> by a single caller, on a table whose ids are
  distinct (the primary key): every returned row comes from a row that was \<open>ready\<close>, or
  \<open>done\<close> with \<open>last_completed_at\<close> NULL or older than \<open>refresh_every_days\<close> days
  before \<open>now\<close>; it is that row with status \<open>in_progress\<close>, \<open>last_started_at = now\<close>,
  \<open>last_error\<close> NULL and the page set to 1 exactly when the row was \<open>done\<close> (a row
  claimed from \<open>ready\<close> keeps its page), every other column unchanged; at most
  \<open>p_limit\<close> rows are returned, and as many as the limit and the number of claimable rows
  allow; the returned rows are rows of the table afterwards; and
  the table afterwards is the table before with exactly the rows of the returned ids
  updated in that way, every other row as it was.
\<close>

theorem claim_github_tasks_returns:
  assumes ids: "distinct (map task_id tasks)"
    and call: "claim_github_tasks now p_limit tasks = Inr (returned, tasks')"
  shows "(\<forall>r \<in> set returned. \<exists>t \<in> set tasks.
            (status t = Ready \<or>
             (status t = Done \<and>
               (last_completed_at t = None \<or>
                (\<exists>c d. last_completed_at t = Some c \<and> refresh_every_days t = Some d
                        \<and> c < now - d * day_us))))
          \<and> r = t\<lparr>status := InProgress, last_started_at := Some now, last_error := None,
                   page := (if status t = Done then 1 else page t)\<rparr>)
       \<and> (\<forall>n. p_limit = Some n \<longrightarrow> length returned \<le> nat n)
       \<and> set returned \<subseteq> set tasks'
       \<and> length returned =
             (case p_limit of
                None \<Rightarrow> length (filter (claimable now) tasks)
              | Some n \<Rightarrow> min (nat n) (length (filter (claimable now) tasks)))
       \<and> tasks' =
             map (\<lambda>t. if task_id t \<in> task_id ` set returned
                      then t\<lparr>status := InProgress, last_started_at := Some now,
                             last_error := None,
                             page := (if status t = Done then 1 else page t)\<rparr>
                      else t) tasks"
proof -
  from call obtain claimed where
    lim: "apply_limit p_limit (map task_id (filter (claimable now) tasks)) = Inr claimed"
    and ret: "returned = map (claim_update now) (filter (\<lambda>t. task_id t \<in> set claimed) tasks)"
    and aft: "tasks' = map (\<lambda>t. if task_id t \<in> set claimed then claim_update now t else t) tasks"
    by (auto simp: claim_github_tasks_def split: sum.splits)
  have sub: "set claimed \<subseteq> task_id ` set (filter (claimable now) tasks)"
    using apply_limit_subset [OF lim] by simp
  have 1: "\<forall>r \<in> set returned. \<exists>t \<in> set tasks.
            (status t = Ready \<or>
             (status t = Done \<and>
               (last_completed_at t = None \<or>
                (\<exists>c d. last_completed_at t = Some c \<and> refresh_every_days t = Some d
                        \<and> c < now - d * day_us))))
          \<and> r = t\<lparr>status := InProgress, last_started_at := Some now, last_error := None,
                   page := (if status t = Done then 1 else page t)\<rparr>"
  proof
    fix r assume "r \<in> set returned"
    then obtain t where t: "t \<in> set tasks" "task_id t \<in> set claimed" "r = claim_update now t"
      using ret by auto
    have c: "claimable now t"
      by (rule claimed_rows_claimable [OF ids sub t(1) t(2)])
    have "status t = Ready \<or>
             (status t = Done \<and>
               (last_completed_at t = None \<or>
                (\<exists>c d. last_completed_at t = Some c \<and> refresh_every_days t = Some d
                        \<and> c < now - d * day_us)))"
      using c by (auto simp: claimable_def due_for_refresh_def split: if_splits option.splits)
    with t show "\<exists>t \<in> set tasks.
            (status t = Ready \<or>
             (status t = Done \<and>
               (last_completed_at t = None \<or>
                (\<exists>c d. last_completed_at t = Some c \<and> refresh_every_days t = Some d
                        \<and> c < now - d * day_us))))
          \<and> r = t\<lparr>status := InProgress, last_started_at := Some now, last_error := None,
                   page := (if status t = Done then 1 else page t)\<rparr>"
      unfolding claim_update_def by blast
  qed
  have 2: "\<forall>n. p_limit = Some n \<longrightarrow> length returned \<le> nat n"
  proof (intro allI impI)
    fix n assume "p_limit = Some n"
    with lim have "length claimed \<le> nat n" by (simp add: apply_limit_length)
    moreover have "length returned \<le> length claimed"
      unfolding ret using length_filter_ids [OF ids] by simp
    ultimately show "length returned \<le> nat n" by simp
  qed
  have 3: "set returned \<subseteq> set tasks'"
    unfolding ret aft by auto
  have same_id: "task_id (claim_update now t) = task_id t" for t
    by (simp add: claim_update_def)
  have returned_ids: "task_id t \<in> task_id ` set returned \<longleftrightarrow> task_id t \<in> set claimed"
    if "t \<in> set tasks" for t
    using that unfolding ret by (auto simp: same_id image_iff)
  have 4: "tasks' =
             map (\<lambda>t. if task_id t \<in> task_id ` set returned
                      then t\<lparr>status := InProgress, last_started_at := Some now,
                             last_error := None,
                             page := (if status t = Done then 1 else page t)\<rparr>
                      else t) tasks"
    unfolding aft by (rule map_cong) (simp_all add: returned_ids claim_update_def)
  have "distinct (map task_id (filter (claimable now) tasks))"
    using ids by (simp add: distinct_map_filter)
  then have "distinct claimed"
    using lim by (rule apply_limit_distinct [rotated])
  moreover have "set claimed \<subseteq> task_id ` set tasks"
    using sub by auto
  ultimately have "length returned = length claimed"
    unfolding ret using length_filter_ids_eq [OF ids] by simp
  with apply_limit_count [OF lim]
  have 5: "length returned =
             (case p_limit of
                None \<Rightarrow> length (filter (claimable now) tasks)
              | Some n \<Rightarrow> min (nat n) (length (filter (claimable now) tasks)))"
    by (simp split: option.splits)
  from 1 2 3 4 5 show ?thesis by blast
qed

theorem claim_github_tasks_returns_witness:
  "distinct (map task_id example_queue) \<and>
   (\<exists>returned tasks'.
      claim_github_tasks (8 * day_us) (Some 2) example_queue = Inr (returned, tasks') \<and>
      map task_id returned = [1, 3] \<and> map page returned = [4, 1] \<and>
      length returned \<le> nat 2 \<and> set returned \<subseteq> set tasks' \<and>
      map status tasks' = [InProgress, InProgress, InProgress, Ready] \<and>
      map page tasks' = [4, 2, 1, 1])"
proof -
  have ids: "distinct (map task_id example_queue)"
    by (simp add: example_queue_def)
  obtain returned tasks' where
    call: "claim_github_tasks (8 * day_us) (Some 2) example_queue = Inr (returned, tasks')"
    by (simp add: claim_github_tasks_def apply_limit_def)
  have shape: "map task_id returned = [1, 3] \<and> map page returned = [4, 1]"
    using call
    by (auto simp: claim_github_tasks_def apply_limit_def example_queue_def claimable_def
        due_for_refresh_def day_us_def claim_update_def)
  have returned_ids: "task_id ` set returned = {1, 3}"
    using shape by (metis list.set_map list.simps(15) empty_set)
  from claim_github_tasks_returns [OF ids call]
  have bounds: "length returned \<le> nat 2 \<and> set returned \<subseteq> set tasks'"
    and after: "tasks' =
             map (\<lambda>t. if task_id t \<in> task_id ` set returned
                      then t\<lparr>status := InProgress, last_started_at := Some (8 * day_us),
                             last_error := None,
                             page := (if status t = Done then 1 else page t)\<rparr>
                      else t) example_queue"
    by blast+
  have table: "map status tasks' = [InProgress, InProgress, InProgress, Ready]
      \<and> map page tasks' = [4, 2, 1, 1]"
    unfolding after returned_ids by (simp add: example_queue_def)
  have "claim_github_tasks (8 * day_us) (Some 2) example_queue = Inr (returned, tasks') \<and>
      map task_id returned = [1, 3] \<and> map page returned = [4, 1] \<and>
      length returned \<le> nat 2 \<and> set returned \<subseteq> set tasks' \<and>
      map status tasks' = [InProgress, InProgress, InProgress, Ready] \<and>
      map page tasks' = [4, 2, 1, 1]"
    using call shape bounds table by simp
  then have "\<exists>returned tasks'.
      claim_github_tasks (8 * day_us) (Some 2) example_queue = Inr (returned, tasks') \<and>
      map task_id returned = [1, 3] \<and> map page returned = [4, 1] \<and>
      length returned \<le> nat 2 \<and> set returned \<subseteq> set tasks' \<and>
      map status tasks' = [InProgress, InProgress, InProgress, Ready] \<and>
      map page tasks' = [4, 2, 1, 1]"
    by (intro exI)
  with ids show ?thesis by (rule conjI)
qed

section \<open>Properties of the discovery driver\<close>

lemma search_partition_server:
  "1 \<le> p \<Longrightarrow> p \<le> 10 \<Longrightarrow>
   searchRepositories (partition_server results p) =
     (Inr \<lparr>total_count = int (length results), incomplete_results = False,
           items = take 100 (drop (100 * nat (p - 1)) results)\<rparr>, 1)"
  by (simp add: searchRepositories_def search_loop.simps partition_server_def maxAttempts_def
      response_ok_def)

lemma upsert_items_ok:
  "upsertRepo env = (\<lambda>r. None) \<Longrightarrow> upsertSnapshot env = (\<lambda>r. None) \<Longrightarrow>
   upsert_items env xs a b = Inr (a + length xs, b + length xs)"
  by (induction xs arbitrary: a b) simp_all

lemma process_pages_partition:
  assumes "0 \<le> i" and "i < pages_needed (length results)" and "\<not> needsSplit acc"
  shows "\<exists>res. process_pages (partition_env results m) 1 i fetched acc
             = (fetched @ [i + 1 .. min m (pages_needed (length results))], Inr res)
           \<and> needsSplit res = (pages_needed (length results) \<le> m \<and> 1000 \<le> length results)
           \<and> nextPage res = (if m \<le> i then nextPage acc
                              else if m < pages_needed (length results) then Some (m + 1)
                              else None)"
  using assms
proof (induction "nat (pages_needed (length results) - i)" arbitrary: i fetched acc)
  case 0
  then show ?case by simp
next
  case (Suc n)
  let ?k = "length results"
  let ?N = "pages_needed ?k"
  let ?env = "partition_env results m"
  have sel: "MAX_PAGES_PER_TASK ?env = m" by (simp add: partition_env_def)
  have N10: "?N \<le> 10" unfolding pages_needed_def by (simp, arith)
  show ?case
  proof (cases "i < m")
    case False
    then have "[i + 1 .. min m ?N] = []" by simp
    with False Suc.prems show ?thesis
      by (subst process_pages.simps) (simp add: sel)
  next
    case True
    let ?p = "1 + i"
    have p: "1 \<le> ?p" "?p \<le> 10" using Suc.prems N10 by auto
    have pp: "page_param ?p = ?p" using p by (simp add: page_param_def)
    define its where "its = take 100 (drop (100 * nat i) results)"
    have search: "fst (searchRepositories (server_for_page ?env (page_param ?p)))
        = Inr \<lparr>total_count = int ?k, incomplete_results = False, items = its\<rparr>"
      using search_partition_server [OF p, of results] by (simp add: partition_env_def pp its_def)
    have ups: "\<And>a b. upsert_items ?env its a b = Inr (a + length its, b + length its)"
      by (rule upsert_items_ok) (simp_all add: partition_env_def)
    have len: "length its = min 100 (?k - 100 * nat i)" by (simp add: its_def)
    show ?thesis
    proof (cases "i + 1 < ?N")
      case True
      then have full: "length its = 100" and lt10: "\<not> ?p \<ge> 10"
        using N10 Suc.prems(1) len by (auto simp: pages_needed_def split: if_splits)
      let ?acc' = "acc\<lparr>reposUpserted := reposUpserted acc + 100,
                        snapshotsUpserted := snapshotsUpserted acc + 100,
                        nextPage := Some (?p + 1)\<rparr>"
      have step: "process_pages ?env 1 i fetched acc
                  = process_pages ?env 1 (i + 1) (fetched @ [?p]) ?acc'"
        using \<open>i < m\<close> lt10
        by (subst process_pages.simps) (simp add: search ups full Let_def sel)
      have "n = nat (?N - (i + 1))" using Suc.hyps(2) by simp
      from Suc.hyps(1) [OF this, where fetched = "fetched @ [?p]" and acc = ?acc'] True Suc.prems
      obtain res where res: "process_pages ?env 1 (i + 1) (fetched @ [?p]) ?acc'
             = ((fetched @ [?p]) @ [i + 1 + 1 .. min m ?N], Inr res)"
           "needsSplit res = (?N \<le> m \<and> 1000 \<le> ?k)"
           "nextPage res = (if m \<le> i + 1 then nextPage ?acc'
                              else if m < ?N then Some (m + 1)
                              else None)"
        by auto
      have "[i + 1 .. min m ?N] = (i + 1) # [i + 1 + 1 .. min m ?N]"
        using True \<open>i < m\<close> by (simp add: upto_rec1)
      with step res \<open>i < m\<close> True show ?thesis
        by (auto simp: add.commute)
    next
      case False
      then have last: "i + 1 = ?N" using Suc.prems by simp
      have upto: "[i + 1 .. min m ?N] = [?N]" using last \<open>i < m\<close> by simp
      show ?thesis
      proof (cases "?k < 1000")
        case True
        then have short: "length its < 100"
          using last Suc.prems(1) len by (auto simp: pages_needed_def)
        have step: "process_pages ?env 1 i fetched acc
            = (fetched @ [?p],
               Inr (acc\<lparr>reposUpserted := reposUpserted acc + length its,
                         snapshotsUpserted := snapshotsUpserted acc + length its,
                         nextPage := None\<rparr>))"
          using \<open>i < m\<close>
          by (subst process_pages.simps) (simp add: search ups short Let_def sel)
        have "?N \<le> m" using last \<open>i < m\<close> by simp
        with step True last upto Suc.prems(3) \<open>i < m\<close> show ?thesis
          by (simp add: add.commute)
      next
        case False
        then have i9: "i = 9" using last by (simp add: pages_needed_def)
        then have full: "length its = 100" and p10: "?p \<ge> 10" using False len by simp_all
        have step: "process_pages ?env 1 i fetched acc
            = (fetched @ [?p],
               Inr (acc\<lparr>reposUpserted := reposUpserted acc + length its,
                         snapshotsUpserted := snapshotsUpserted acc + length its,
                         needsSplit := True, nextPage := None\<rparr>))"
          using \<open>i < m\<close> p10
          by (subst process_pages.simps) (simp add: search ups full Let_def sel)
        have "?N \<le> m" using last \<open>i < m\<close> by simp
        with step False last upto \<open>i < m\<close> show ?thesis
          by (simp add: add.commute)
      qed
    qed
  qed
qed

lemma run_claimed_task_partition:
  assumes "page task = 1"
  shows "run_claimed_task now (partition_env results m) task =
     ([1 .. min m (pages_needed (length results))],
      updateTaskStatus now
        (if pages_needed (length results) \<le> m \<and> 1000 \<le> length results then NeedsSplit
         else if m \<le> 0 \<or> pages_needed (length results) \<le> m then Done
         else InProgress)
        (if 0 < m \<and> m < pages_needed (length results) then Some (m + 1) else None)
        None task)"
proof -
  let ?acc = "\<lparr>reposUpserted = 0, snapshotsUpserted = 0, needsSplit = False, nextPage = None\<rparr>"
  have pos: "0 < pages_needed (length results)" by (simp add: pages_needed_def)
  have nonneg: "(0::int) \<le> 0" and fresh: "\<not> needsSplit ?acc" by simp_all
  from process_pages_partition [OF nonneg pos fresh, of m "[]"]
  obtain res where res:
    "process_pages (partition_env results m) 1 0 [] ?acc
       = ([] @ [0 + 1 .. min m (pages_needed (length results))], Inr res)"
    "needsSplit res = (pages_needed (length results) \<le> m \<and> 1000 \<le> length results)"
    "nextPage res = (if m \<le> 0 then nextPage ?acc
                     else if m < pages_needed (length results) then Some (m + 1) else None)"
    by blast
  show ?thesis
    using res assms by (auto simp: run_claimed_task_def processTask_def)
qed

text \<open>\<open>k div 100 + 1\<close> against \<open>ceil (k / 100) = (k + 99) div 100\<close>.\<close>

lemma ceil_pages:
  "(k::nat) div 100 + 1 = (if 100 dvd k then (k + 99) div 100 + 1 else (k + 99) div 100)"
proof -
  obtain q r where k: "k = 100 * q + r" and r: "r < 100"
    by (metis mod_less_divisor mult_div_mod_eq zero_less_numeral)
  have q: "k div 100 = q" using k r by simp
  have d: "100 dvd k \<longleftrightarrow> r = 0" using k r nat_dvd_not_less [of r 100] by (auto simp: dvd_add_right_iff)
  have "(k + 99) div 100 = (if r = 0 then q else q + 1)"
  proof (cases "r = 0")
    case True
    then show ?thesis using k by simp
  next
    case False
    then have "(k + 99) div 100 = q + 1"
      using k r by (intro div_nat_eqI) simp_all
    with False show ?thesis by simp
  qed
  with q d show ?thesis by simp
qed

text \<open>
  C5, as the code has it. A claimed task on page 1 is processed in one invocation against a
  partition with \<open>k\<close> results. When \<open>k < 1000\<close> and the page budget is at least
  \<open>k div 100 + 1\<close>, the pages 1 to \<open>k div 100 + 1\<close> are fetched and the task ends
  \<open>done\<close>, completed now, with its page reset to 1; that number of pages is
  \<open>ceil (k / 100)\<close> when 100 does not divide \<open>k\<close> and one more (a last page that comes
  back empty) when it does. When \<open>k \<ge> 1000\<close> and the budget is at least 10, the pages
  1 to 10 are fetched and the task ends \<open>needs_split\<close>.
\<close>

theorem crawl_partition_from_page_one:
  assumes "page task = 1"
  shows "(length results < 1000 \<and> int (length results div 100) + 1 \<le> m \<longrightarrow>
            run_claimed_task now (partition_env results m) task =
              ([1 .. int (length results div 100) + 1],
               task\<lparr>status := Done, last_completed_at := Some now, last_error := None,
                    page := 1\<rparr>)
            \<and> length results div 100 + 1 =
                (if 100 dvd length results then (length results + 99) div 100 + 1
                 else (length results + 99) div 100))
       \<and> (1000 \<le> length results \<and> 10 \<le> m \<longrightarrow>
            run_claimed_task now (partition_env results m) task =
              ([1 .. 10],
               task\<lparr>status := NeedsSplit, last_completed_at := None, last_error := None,
                    page := 1\<rparr>))"
proof (intro conjI impI)
  assume h: "length results < 1000 \<and> int (length results div 100) + 1 \<le> m"
  then have "0 < m" by linarith
  with h show "run_claimed_task now (partition_env results m) task =
              ([1 .. int (length results div 100) + 1],
               task\<lparr>status := Done, last_completed_at := Some now, last_error := None,
                    page := 1\<rparr>)"
    by (simp add: run_claimed_task_partition [OF assms] pages_needed_def updateTaskStatus_def
        string_or_null_def falsy_string_def)
next
  show "length results div 100 + 1 =
                (if 100 dvd length results then (length results + 99) div 100 + 1
                 else (length results + 99) div 100)"
    by (rule ceil_pages)
next
  assume h: "1000 \<le> length results \<and> 10 \<le> m"
  then show "run_claimed_task now (partition_env results m) task =
              ([1 .. 10],
               task\<lparr>status := NeedsSplit, last_completed_at := None, last_error := None,
                    page := 1\<rparr>)"
    using assms
    by (simp add: run_claimed_task_partition [OF assms] pages_needed_def updateTaskStatus_def
        string_or_null_def falsy_string_def)
qed

theorem crawl_partition_from_page_one_witness:
  "page fresh_task = 1 \<and>
   run_claimed_task 99 (partition_env (replicate 250 ()) 3) fresh_task =
     ([1, 2, 3],
      fresh_task\<lparr>status := Done, last_completed_at := Some 99, last_error := None, page := 1\<rparr>) \<and>
   run_claimed_task 99 (partition_env (replicate 1200 ()) 10) fresh_task =
     ([1, 2, 3, 4, 5, 6, 7, 8, 9, 10],
      fresh_task\<lparr>status := NeedsSplit, last_completed_at := None, last_error := None, page := 1\<rparr>)"
proof -
  have p: "page fresh_task = 1" by (simp add: fresh_task_def)
  have u3: "[1 .. (3::int)] = [1, 2, 3]" by (simp add: upto.simps)
  have u10: "[1 .. (10::int)] = [1, 2, 3, 4, 5, 6, 7, 8, 9, 10]" by (simp add: upto.simps)
  from crawl_partition_from_page_one [OF p, of "replicate 250 ()" 3 99]
  have a: "run_claimed_task 99 (partition_env (replicate 250 ()) 3) fresh_task =
     ([1, 2, 3],
      fresh_task\<lparr>status := Done, last_completed_at := Some 99, last_error := None, page := 1\<rparr>)"
    by (simp add: u3)
  from crawl_partition_from_page_one [OF p, of "replicate 1200 ()" 10 99]
  have b: "run_claimed_task 99 (partition_env (replicate 1200 ()) 10) fresh_task =
     ([1, 2, 3, 4, 5, 6, 7, 8, 9, 10],
      fresh_task\<lparr>status := NeedsSplit, last_completed_at := None, last_error := None, page := 1\<rparr>)"
    by (simp add: u10)
  from p a b show ?thesis by simp
qed

text \<open>
  The claim as the spec words it fails for a partition of exactly 100 results (two pages
  are fetched, not one), for one of exactly 1000 results (it ends \<open>needs_split\<close>, not
  \<open>done\<close>), and for one of 350 results under the default budget of 3 pages (it ends
  \<open>in_progress\<close>).
\<close>

theorem crawl_partition_counterexample:
  "length (fst (run_claimed_task 99 (partition_env (replicate 100 ()) 3) fresh_task))
     \<noteq> (100 + 99) div 100
   \<and> status (snd (run_claimed_task 99 (partition_env (replicate 1000 ()) 10) fresh_task)) \<noteq> Done
   \<and> status (snd (run_claimed_task 99 (partition_env (replicate 350 ()) 3) fresh_task)) \<noteq> Done"
proof -
  have p: "page fresh_task = 1" by (simp add: fresh_task_def)
  have u2: "[1 .. (2::int)] = [1, 2]" by (simp add: upto.simps)
  have a: "fst (run_claimed_task 99 (partition_env (replicate 100 ()) 3) fresh_task) = [1, 2]"
    by (simp add: run_claimed_task_partition [OF p] pages_needed_def u2)
  have b: "status (snd (run_claimed_task 99 (partition_env (replicate 1000 ()) 10) fresh_task))
            = NeedsSplit"
    by (simp add: run_claimed_task_partition [OF p] pages_needed_def updateTaskStatus_def)
  have c: "status (snd (run_claimed_task 99 (partition_env (replicate 350 ()) 3) fresh_task))
            = InProgress"
    by (simp add: run_claimed_task_partition [OF p] pages_needed_def updateTaskStatus_def)
  from a b c show ?thesis by simp
qed

text \<open>
  C3. A claimed task on page 1 whose partition has 350 results, with the default budget of
  3 pages: the driver leaves it \<open>in_progress\<close> on page 4, and such a row is not claimable
  at any later time, so a later \<open>claim_github_tasks\<close> returns nothing for it.
\<close>

theorem budget_exhausted_task_is_stuck:
  "snd (run_claimed_task now (partition_env (replicate 350 r) 3) fresh_task)
     = fresh_task\<lparr>status := InProgress, last_completed_at := None, last_error := None, page := 4\<rparr>
   \<and> \<not> claimable later (snd (run_claimed_task now (partition_env (replicate 350 r) 3) fresh_task))
   \<and> claim_github_tasks later (Some 3)
        [snd (run_claimed_task now (partition_env (replicate 350 r) 3) fresh_task)]
      = Inr ([], [snd (run_claimed_task now (partition_env (replicate 350 r) 3) fresh_task)])"
proof -
  have p: "page fresh_task = 1" by (simp add: fresh_task_def)
  have a: "snd (run_claimed_task now (partition_env (replicate 350 r) 3) fresh_task)
     = fresh_task\<lparr>status := InProgress, last_completed_at := None, last_error := None, page := 4\<rparr>"
    by (simp add: run_claimed_task_partition [OF p] pages_needed_def updateTaskStatus_def
        string_or_null_def falsy_string_def)
  have b: "\<not> claimable later
       (fresh_task\<lparr>status := InProgress, last_completed_at := None, last_error := None, page := 4\<rparr>)"
    by (simp add: claimable_def)
  have c: "claim_github_tasks later (Some 3)
       [fresh_task\<lparr>status := InProgress, last_completed_at := None, last_error := None, page := 4\<rparr>]
     = Inr ([], [fresh_task\<lparr>status := InProgress, last_completed_at := None, last_error := None, page := 4\<rparr>])"
    by (simp add: claim_github_tasks_def apply_limit_def b)
  from a b c show ?thesis by simp
qed

text \<open>
  The same for every task: whenever \<open>processTask\<close> returns with a next page and no split,
  or throws, the row the driver writes is \<open>in_progress\<close> and never claimable again.
\<close>

lemma exhausted_budget_never_claimable:
  assumes "processTask env task = (fetched, Inr result)"
    and "\<not> needsSplit result" and "nextPage result = Some p"
  shows "snd (run_claimed_task now env task)
           = task\<lparr>status := InProgress, last_completed_at := None, last_error := None, page := p\<rparr>
         \<and> \<not> claimable later (snd (run_claimed_task now env task))"
  using assms
  by (simp add: run_claimed_task_def updateTaskStatus_def claimable_def string_or_null_def
      falsy_string_def)

lemma failed_task_never_claimable:
  assumes "processTask env task = (fetched, Inl msg)"
  shows "status (snd (run_claimed_task now env task)) = InProgress
         \<and> page (snd (run_claimed_task now env task)) = page task
         \<and> \<not> claimable later (snd (run_claimed_task now env task))"
  using assms
  by (simp add: run_claimed_task_def updateTaskStatus_def claimable_def)

section \<open>Properties of the search client\<close>

text \<open>
  C4. A server that answers HTTP 500 once and HTTP 200 afterwards: \<open>searchRepositories\<close>
  does not fail on the 500, it issues a second request and returns its data.
\<close>

theorem searchRepositories_retries_api_error:
  "searchRepositories (flaky_server data) = (Inr data, 2)"
  by (simp add: searchRepositories_def search_loop.simps flaky_server_def maxAttempts_def
      response_ok_def)

text \<open>Whatever the server answers, a call issues at most five requests.\<close>

lemma search_loop_requests:
  "snd (search_loop server attempt n) \<le> n + (maxAttempts - attempt)"
proof (induction "maxAttempts - attempt" arbitrary: attempt n)
  case 0
  then show ?case by (subst search_loop.simps) simp
next
  case (Suc k)
  then have lt: "attempt < maxAttempts" and k: "k = maxAttempts - (attempt + 1)" by simp_all
  define r where "r = search_loop server (attempt + 1) (n + 1)"
  have next_ok: "snd r \<le> n + (maxAttempts - attempt)"
    unfolding r_def using Suc.hyps(1) [OF k, of "n + 1"] lt by simp
  have here: "n + 1 \<le> n + (maxAttempts - attempt)" using lt by simp
  have unfold: "search_loop server attempt n =
        (case server n of
           NetworkFailure msg \<Rightarrow>
             if attempt = maxAttempts - 1 then (Inl (FetchError msg), n + 1) else r
         | Response code retry_after body json \<Rightarrow>
             if code = 403 \<or> code = 429 then r
             else if \<not> response_ok code then
               (if attempt = maxAttempts - 1 then (Inl (ApiError code body), n + 1) else r)
             else
               (case json of
                  Inl msg \<Rightarrow>
                    if attempt = maxAttempts - 1 then (Inl (JsonError msg), n + 1) else r
                | Inr data \<Rightarrow> (Inr data, n + 1)))"
    unfolding r_def using lt by (subst search_loop.simps) simp
  show ?case
    unfolding unfold using next_ok here
    by (auto split: fetch_outcome.split sum.split)
qed

lemma searchRepositories_at_most_five_requests:
  "snd (searchRepositories server) \<le> 5"
  using search_loop_requests [of server 0 0] by (simp add: searchRepositories_def maxAttempts_def)

section \<open>Properties of the scoring driver\<close>

lemma latest_snapshot_mem: "latest_snapshot xs = Some s \<Longrightarrow> s \<in> set xs"
  by (induction xs arbitrary: s) (auto split: option.splits if_splits)

lemma previous_snapshot_mem: "previous_snapshot snaps rid ls = Some p \<Longrightarrow> p \<in> set snaps"
  by (auto simp: previous_snapshot_def snapshots_of_def dest: latest_snapshot_mem)

lemma zero_history_latest:
  "latest_snapshot (snapshots_of zero_history 1)
     = Some \<lparr>snap_repo_id = 1, captured_at = fourteen_days, stars_count = 5\<rparr>"
  by (simp add: zero_history_def snapshots_of_def fourteen_days_def)

lemma zero_history_previous:
  "previous_snapshot zero_history 1 \<lparr>snap_repo_id = 1, captured_at = fourteen_days, stars_count = 5\<rparr>
     = Some \<lparr>snap_repo_id = 1, captured_at = 0, stars_count = 0\<rparr>"
  by (simp add: previous_snapshot_def zero_history_def snapshots_of_def fourteen_days_def)

text \<open>
  On the fallback path the growth is computed by the formulas for every repository with
  a previous snapshot, \<open>stars_prev = 0\<close> included, and a score is never negative.
\<close>

lemma growth_formulas_fallback:
  assumes "latest_snapshot (snapshots_of snaps rid) = Some ls"
    and "previous_snapshot snaps rid ls = Some p"
  shows "\<exists>t. fallback_trend snaps rid = Some t \<and> \<not> is_new t
      \<and> abs_growth_14d t = Some (stars_count ls - stars_count p)
      \<and> pct_growth_14d t
          = Some (real_of_int (stars_count ls - stars_count p) / real_of_int (max (stars_count p) 1))
      \<and> score t
          = Some (if stars_count ls - stars_count p \<le> 0 then 0
                  else real_of_int (stars_count ls - stars_count p)
                       * ln (1 + max (real_of_int (stars_count ls - stars_count p)
                                        / real_of_int (max (stars_count p) 1)) 0))"
  using assms by (simp add: fallback_trend_def Let_def computeScore_def)

lemma computeScore_nonneg: "0 \<le> computeScore a p"
  by (simp add: computeScore_def)

text \<open>
  The message of error 42702 does not name a missing function, so \<open>GET\<close> throws it
  again; a pass that completes has therefore gone through the fallback loop.
\<close>

lemma missing_function_starts_fallback:
  "js_includes missing_function ''function'' \<and> js_includes missing_function ''does not exist''"
  by (simp add: missing_function_def)

lemma ambiguous_is_rethrown:
  "\<not> (js_includes ambiguous_repo_id ''function'' \<and> js_includes ambiguous_repo_id ''does not exist'')"
  by (simp add: ambiguous_repo_id_def)

lemma scoring_pass_completed:
  assumes "scoring_pass (rpc_compute_repo_trends_14d missing snaps) repos snaps
             = ScoringCompleted rows"
  shows "rows = List.map_filter (fallback_trend snaps) repos"
  using assms ambiguous_is_rethrown
  by (auto simp: scoring_pass_def rpc_compute_repo_trends_14d_def compute_repo_trends_14d_def
      split: option.splits if_splits)

lemma fallback_trend_repo_id:
  "fallback_trend snaps rid = Some t \<Longrightarrow> trend_repo_id t = rid"
  by (auto simp: fallback_trend_def Let_def split: option.splits)

lemma score_formula_nonneg:
  "0 \<le> (if a \<le> 0 then 0 else real_of_int a * ln (1 + max p 0))"
  by simp

lemma zero_history_pass:
  "scoring_pass (rpc_compute_repo_trends_14d (Some missing_function) zero_history) [1] zero_history
     = ScoringCompleted
         [\<lparr>trend_repo_id = 1, stars_now = 5, stars_prev = None, prev_captured_at = Some 0,
           abs_growth_14d = Some 5, pct_growth_14d = Some 5, score = Some (5 * ln 6),
           is_new = False\<rparr>]"
  using missing_function_starts_fallback
  by (simp add: scoring_pass_def rpc_compute_repo_trends_14d_def List.map_filter_simps
      fallback_trend_def zero_history_latest zero_history_previous
      falsy_number_def number_or_null_def computeScore_def)

text \<open>
  C6. Whenever the scoring pass completes, a repository of \<open>github_repos\<close> with a latest
  snapshot and a previous snapshot at least 14 days older has a trend among the rows
  written, and every row written for it is not new and carries
  \<open>abs_growth = stars_now - stars_prev\<close>, \<open>pct_growth = abs_growth / max(stars_prev, 1)\<close>
  and \<open>score = abs_growth * ln (1 + max(pct_growth, 0))\<close>, the score being 0 when the
  absolute growth is zero or negative and never negative; \<open>stars_prev = 0\<close> is no
  exception (0 to 5 stars gives 5.0, in the witness).
\<close>

theorem scoring_pass_growth_formulas:
  assumes pass: "scoring_pass (rpc_compute_repo_trends_14d missing snaps) repos snaps
                   = ScoringCompleted rows"
    and repo: "rid \<in> set repos"
    and latest: "latest_snapshot (snapshots_of snaps rid) = Some ls"
    and previous: "previous_snapshot snaps rid ls = Some p"
  shows "(\<exists>t \<in> set rows. trend_repo_id t = rid)
     \<and> (\<forall>t \<in> set rows. trend_repo_id t = rid \<longrightarrow>
          \<not> is_new t
        \<and> stars_now t = stars_count ls
        \<and> abs_growth_14d t = Some (stars_count ls - stars_count p)
        \<and> pct_growth_14d t
            = Some (real_of_int (stars_count ls - stars_count p)
                    / real_of_int (max (stars_count p) 1))
        \<and> score t
            = Some (if stars_count ls - stars_count p \<le> 0 then 0
                    else real_of_int (stars_count ls - stars_count p)
                         * ln (1 + max (real_of_int (stars_count ls - stars_count p)
                                          / real_of_int (max (stars_count p) 1)) 0))
        \<and> (\<exists>s. score t = Some s \<and> 0 \<le> s))"
proof -
  have rows: "rows = List.map_filter (fallback_trend snaps) repos"
    by (rule scoring_pass_completed [OF pass])
  have member: "t \<in> set rows \<longleftrightarrow> (\<exists>r \<in> set repos. fallback_trend snaps r = Some t)" for t
    unfolding rows by (force simp: List.map_filter_def image_iff)
  obtain t0 where t0: "fallback_trend snaps rid = Some t0"
    using latest previous by (simp add: fallback_trend_def Let_def)
  have exists: "\<exists>t \<in> set rows. trend_repo_id t = rid"
    using t0 repo member fallback_trend_repo_id by blast
  have all: "\<forall>t \<in> set rows. trend_repo_id t = rid \<longrightarrow>
          \<not> is_new t
        \<and> stars_now t = stars_count ls
        \<and> abs_growth_14d t = Some (stars_count ls - stars_count p)
        \<and> pct_growth_14d t
            = Some (real_of_int (stars_count ls - stars_count p)
                    / real_of_int (max (stars_count p) 1))
        \<and> score t
            = Some (if stars_count ls - stars_count p \<le> 0 then 0
                    else real_of_int (stars_count ls - stars_count p)
                         * ln (1 + max (real_of_int (stars_count ls - stars_count p)
                                          / real_of_int (max (stars_count p) 1)) 0))
        \<and> (\<exists>s. score t = Some s \<and> 0 \<le> s)"
  proof (intro ballI impI)
    fix t assume "t \<in> set rows" and id: "trend_repo_id t = rid"
    then obtain r where "fallback_trend snaps r = Some t" using member by blast
    with id have t: "fallback_trend snaps rid = Some t"
      using fallback_trend_repo_id by blast
    from growth_formulas_fallback [OF latest previous] t
    have f: "\<not> is_new t"
      "abs_growth_14d t = Some (stars_count ls - stars_count p)"
      "pct_growth_14d t
            = Some (real_of_int (stars_count ls - stars_count p)
                    / real_of_int (max (stars_count p) 1))"
      "score t
            = Some (if stars_count ls - stars_count p \<le> 0 then 0
                    else real_of_int (stars_count ls - stars_count p)
                         * ln (1 + max (real_of_int (stars_count ls - stars_count p)
                                          / real_of_int (max (stars_count p) 1)) 0))"
      by auto
    have now: "stars_now t = stars_count ls"
      using t latest previous by (auto simp: fallback_trend_def Let_def)
    have "\<exists>s. score t = Some s \<and> 0 \<le> s"
      unfolding f(4) using score_formula_nonneg by blast
    with f now show "\<not> is_new t
        \<and> stars_now t = stars_count ls
        \<and> abs_growth_14d t = Some (stars_count ls - stars_count p)
        \<and> pct_growth_14d t
            = Some (real_of_int (stars_count ls - stars_count p)
                    / real_of_int (max (stars_count p) 1))
        \<and> score t
            = Some (if stars_count ls - stars_count p \<le> 0 then 0
                    else real_of_int (stars_count ls - stars_count p)
                         * ln (1 + max (real_of_int (stars_count ls - stars_count p)
                                          / real_of_int (max (stars_count p) 1)) 0))
        \<and> (\<exists>s. score t = Some s \<and> 0 \<le> s)"
      by blast
  qed
  from exists all show ?thesis by blast
qed

theorem scoring_pass_growth_formulas_witness:
  "scoring_pass (rpc_compute_repo_trends_14d (Some missing_function) zero_history) [1] zero_history
     = ScoringCompleted
         [\<lparr>trend_repo_id = 1, stars_now = 5, stars_prev = None, prev_captured_at = Some 0,
           abs_growth_14d = Some 5, pct_growth_14d = Some 5, score = Some (5 * ln 6),
           is_new = False\<rparr>]
   \<and> (1::int) \<in> set [1]
   \<and> latest_snapshot (snapshots_of zero_history 1)
       = Some \<lparr>snap_repo_id = 1, captured_at = fourteen_days, stars_count = 5\<rparr>
   \<and> previous_snapshot zero_history 1
         \<lparr>snap_repo_id = 1, captured_at = fourteen_days, stars_count = 5\<rparr>
       = Some \<lparr>snap_repo_id = 1, captured_at = 0, stars_count = 0\<rparr>
   \<and> pct_growth_14d
         \<lparr>trend_repo_id = 1, stars_now = 5, stars_prev = None, prev_captured_at = Some 0,
          abs_growth_14d = Some 5, pct_growth_14d = Some 5, score = Some (5 * ln 6),
          is_new = False\<rparr>
       = Some (real_of_int (5 - 0) / real_of_int (max 0 1))"
proof -
  have repo: "(1::int) \<in> set [1]" by simp
  from scoring_pass_growth_formulas
         [OF zero_history_pass repo zero_history_latest zero_history_previous]
  have "pct_growth_14d
         \<lparr>trend_repo_id = 1, stars_now = 5, stars_prev = None, prev_captured_at = Some 0,
          abs_growth_14d = Some 5, pct_growth_14d = Some 5, score = Some (5 * ln 6),
          is_new = False\<rparr>
       = Some (real_of_int (5 - 0) / real_of_int (max 0 1))"
    by simp
  with zero_history_pass repo zero_history_latest zero_history_previous show ?thesis
    by blast
qed

text \<open>
  C7. With the function of migration 003 in the store, the batch path writes no trend for
  any history: the RPC raises and the pass fails. Without it, the fallback path writes
  the trend (here for 50 to 80 stars). The two paths do not produce the same row.
\<close>

theorem batch_path_writes_no_trend:
  "scoring_pass (rpc_compute_repo_trends_14d None snaps) repos snaps
     = ScoringFailed ambiguous_repo_id
   \<and> scoring_pass (rpc_compute_repo_trends_14d (Some missing_function) growth_history) [2]
         growth_history
     = ScoringCompleted
         [\<lparr>trend_repo_id = 2, stars_now = 80, stars_prev = Some 50, prev_captured_at = Some 0,
           abs_growth_14d = Some 30, pct_growth_14d = Some (3 / 5),
           score = Some (30 * ln (8 / 5)), is_new = False\<rparr>]"
proof -
  have failed: "scoring_pass (rpc_compute_repo_trends_14d None snaps) repos snaps
     = ScoringFailed ambiguous_repo_id"
    using ambiguous_is_rethrown
    by (simp add: scoring_pass_def rpc_compute_repo_trends_14d_def compute_repo_trends_14d_def)
  have fallback: "fallback_trend growth_history 2
     = Some \<lparr>trend_repo_id = 2, stars_now = 80, stars_prev = Some 50, prev_captured_at = Some 0,
           abs_growth_14d = Some 30, pct_growth_14d = Some (3 / 5),
           score = Some (30 * ln (8 / 5)), is_new = False\<rparr>"
    by (simp add: fallback_trend_def growth_history_def snapshots_of_def previous_snapshot_def
        fourteen_days_def falsy_number_def number_or_null_def computeScore_def Let_def)
  have completed: "scoring_pass (rpc_compute_repo_trends_14d (Some missing_function) growth_history)
         [2] growth_history
     = ScoringCompleted
         [\<lparr>trend_repo_id = 2, stars_now = 80, stars_prev = Some 50, prev_captured_at = Some 0,
           abs_growth_14d = Some 30, pct_growth_14d = Some (3 / 5),
           score = Some (30 * ln (8 / 5)), is_new = False\<rparr>]"
    using missing_function_starts_fallback
    by (simp add: scoring_pass_def rpc_compute_repo_trends_14d_def List.map_filter_simps fallback)
  from failed completed show ?thesis by simp
qed

text \<open>
  The batch loop itself, on a row with \<open>stars_prev = 0\<close>, would take the repository for a
  new one (\<open>isNew = !starsPrev\<close>), where the fallback loop tests \<open>!prevSnapshot\<close>.
\<close>

lemma rpc_trend_zero_previous_stars:
  "is_new (rpc_trend \<lparr>in_repo_id = r, in_stars_now = n, in_stars_prev = Some 0,
                         in_prev_captured_at = c\<rparr>)"
  by (simp add: rpc_trend_def falsy_number_def)

text \<open>
  C10. Neither path writes a trend with \<open>stars_prev = 0\<close>: the row of the batch path for
  any RPC row, and the row of the fallback path for any history, have \<open>stars_prev\<close> NULL
  or different from 0; and when the star counts read are not negative, a \<open>stars_prev\<close>
  that is written is positive.
\<close>

theorem trend_stars_prev_never_zero:
  "stars_prev (rpc_trend row) \<noteq> Some 0
   \<and> (\<forall>t. fallback_trend snaps rid = Some t \<longrightarrow> stars_prev t \<noteq> Some 0)
   \<and> ((\<forall>n. in_stars_prev row = Some n \<longrightarrow> 0 \<le> n) \<longrightarrow>
        (\<forall>n. stars_prev (rpc_trend row) = Some n \<longrightarrow> 0 < n))
   \<and> (list_all (\<lambda>s. 0 \<le> stars_count s) snaps \<longrightarrow>
        (\<forall>t n. fallback_trend snaps rid = Some t \<longrightarrow> stars_prev t = Some n \<longrightarrow> 0 < n))"
proof (intro conjI allI impI)
  show "stars_prev (rpc_trend row) \<noteq> Some 0"
    by (simp add: rpc_trend_def falsy_number_def number_or_null_def Let_def split: option.split)
next
  fix t assume "fallback_trend snaps rid = Some t"
  then show "stars_prev t \<noteq> Some 0"
    by (auto simp: fallback_trend_def falsy_number_def number_or_null_def Let_def
        split: option.splits if_splits)
next
  fix n assume "\<forall>n. in_stars_prev row = Some n \<longrightarrow> 0 \<le> n"
    and "stars_prev (rpc_trend row) = Some n"
  then show "0 < n"
    by (auto simp: rpc_trend_def falsy_number_def number_or_null_def Let_def
        split: option.splits if_splits)
next
  fix t n assume nonneg: "list_all (\<lambda>s. 0 \<le> stars_count s) snaps"
    and t: "fallback_trend snaps rid = Some t" and n: "stars_prev t = Some n"
  from t n obtain ls p where "previous_snapshot snaps rid ls = Some p" and "stars_count p = n"
    and "n \<noteq> 0"
    by (auto simp: fallback_trend_def falsy_number_def number_or_null_def Let_def
        split: option.splits if_splits)
  moreover from this(1) have "p \<in> set snaps" by (rule previous_snapshot_mem)
  ultimately show "0 < n" using nonneg by (auto simp: list_all_iff)
qed

theorem trend_stars_prev_never_zero_witness:
  "list_all (\<lambda>s. 0 \<le> stars_count s) zero_history
   \<and> (\<exists>t. fallback_trend zero_history 1 = Some t \<and> stars_prev t = None)
   \<and> (\<exists>t n. fallback_trend growth_history 2 = Some t \<and> stars_prev t = Some n \<and> 0 < n)
   \<and> stars_prev (rpc_trend \<lparr>in_repo_id = 1, in_stars_now = 5, in_stars_prev = Some 0,
                                in_prev_captured_at = Some 0\<rparr>) \<noteq> Some 0"
proof -
  have nonneg: "list_all (\<lambda>s. 0 \<le> stars_count s) zero_history"
    by (simp add: zero_history_def)
  have nonneg2: "list_all (\<lambda>s. 0 \<le> stars_count s) growth_history"
    by (simp add: growth_history_def)
  have z: "\<exists>t. fallback_trend zero_history 1 = Some t \<and> stars_prev t = None"
    by (simp add: fallback_trend_def zero_history_latest zero_history_previous
        falsy_number_def number_or_null_def)
  have g: "\<exists>t. fallback_trend growth_history 2 = Some t \<and> stars_prev t = Some 50"
    by (simp add: fallback_trend_def growth_history_def snapshots_of_def previous_snapshot_def
        fourteen_days_def falsy_number_def number_or_null_def Let_def)
  then obtain t where t: "fallback_trend growth_history 2 = Some t" "stars_prev t = Some 50"
    by blast
  from trend_stars_prev_never_zero
         [of "\<lparr>in_repo_id = 1, in_stars_now = 5, in_stars_prev = Some 0,
              in_prev_captured_at = Some 0\<rparr>" growth_history 2]
       nonneg2 t
  have "(0::int) < 50
        \<and> stars_prev (rpc_trend \<lparr>in_repo_id = 1, in_stars_now = 5, in_stars_prev = Some 0,
                                in_prev_captured_at = Some 0\<rparr>) \<noteq> Some 0"
    by blast
  with nonneg z t show ?thesis by blast
qed

section \<open>Properties of the task seeder\<close>

lemma number_or_null_text_idem [simp]:
  "number_or_null_text (number_or_null n) = number_or_null_text n"
  by (simp add: number_or_null_text_def number_or_null_def falsy_number_def split: option.splits)

lemma string_or_null_text_kept:
  assumes "\<And>s. string_or_null p = Some s \<Longrightarrow> date_column s = s"
  shows "string_or_null_text (map_option date_column (string_or_null p)) = string_or_null_text p"
proof (cases "string_or_null p")
  case None
  then show ?thesis
    by (simp add: string_or_null_text_def string_or_null_def falsy_string_def)
next
  case (Some s)
  with assms have "date_column s = s" by simp
  moreover from Some have "p = Some s" and "s \<noteq> []"
    by (auto simp: string_or_null_def falsy_string_def split: if_splits option.splits)
  ultimately show ?thesis
    using Some by (simp add: string_or_null_text_def string_or_null_def falsy_string_def)
qed

lemma candidate_key:
  assumes "candidate config window band = Some (key, r)"
    and "date_column (fst window) = fst window" and "date_column (snd window) = snd window"
    and "\<And>s. string_or_null (pushedAfter config) = Some s \<Longrightarrow> date_column s = s"
  shows "existing_key (new_row date_column i r) = key"
  using assms(1-3) string_or_null_text_kept [of "pushedAfter config" date_column, OF assms(4)]
  by (auto simp: candidate_def existing_key_def new_row_def Let_def split: if_splits)

lemma candidates_key:
  assumes "c \<in> set (candidates config windows)"
    and "\<And>w. w \<in> set windows \<Longrightarrow> date_column (fst w) = fst w \<and> date_column (snd w) = snd w"
    and "\<And>s. string_or_null (pushedAfter config) = Some s \<Longrightarrow> date_column s = s"
  shows "existing_key (new_row date_column i (snd c)) = fst c"
proof -
  from assms(1) obtain w band where w: "w \<in> set windows"
    and c: "candidate config w band = Some c"
    by (auto simp: candidates_def List.map_filter_def)
  from c have "candidate config w band = Some (fst c, snd c)" by simp
  then show ?thesis
    using assms(2) [OF w] assms(3) by (intro candidate_key) auto
qed

lemma existing_key_new_row:
  "existing_key (new_row date_column i r) = existing_key (new_row date_column 0 r)"
  by (simp add: existing_key_def new_row_def)

lemma insert_rows_keys:
  "existing_key ` set (insert_rows date_column store rows)
     = existing_key ` set store \<union> (\<lambda>r. existing_key (new_row date_column 0 r)) ` set rows"
proof (induction rows arbitrary: store)
  case Nil
  show ?case by simp
next
  case (Cons r rows)
  have "existing_key (new_row date_column (int (length store) + 1) r)
      = existing_key (new_row date_column 0 r)"
    by (rule existing_key_new_row)
  with Cons [of "store @ [new_row date_column (int (length store) + 1) r]"] show ?case
    by auto
qed

lemma insert_batches_keys:
  "insert_batches date_column insert_error rows i created store = (Inr n, store') \<Longrightarrow>
   existing_key ` set store'
     = existing_key ` set store
       \<union> (\<lambda>r. existing_key (new_row date_column 0 r)) ` set (drop i rows)"
proof (induction date_column insert_error rows i created store rule: insert_batches.induct)
  case (1 date_column insert_error tasksToInsert i created store)
  show ?case
  proof (cases "i < length tasksToInsert")
    case False
    with "1.prems" show ?thesis
      by (simp add: insert_batches.simps [of date_column insert_error tasksToInsert i])
  next
    case True
    define batch where "batch = take 500 (drop i tasksToInsert)"
    from True "1.prems" have ok: "insert_error (i div 500) = None"
      and rec: "insert_batches date_column insert_error tasksToInsert (i + 500)
                  (created + length batch) (insert_rows date_column store batch) = (Inr n, store')"
      by (auto simp: insert_batches.simps [of date_column insert_error tasksToInsert i] batch_def
          Let_def split: option.splits)
    from "1.IH" [OF True batch_def ok rec]
    have "existing_key ` set store'
        = existing_key ` set (insert_rows date_column store batch)
          \<union> (\<lambda>r. existing_key (new_row date_column 0 r)) ` set (drop (i + 500) tasksToInsert)" .
    moreover have "set batch \<union> set (drop (i + 500) tasksToInsert) = set (drop i tasksToInsert)"
    proof -
      have "drop (i + 500) tasksToInsert = drop 500 (drop i tasksToInsert)"
        by (simp add: add.commute)
      then show ?thesis
        unfolding batch_def by (metis append_take_drop_id set_append)
    qed
    ultimately show ?thesis
      by (simp add: insert_rows_keys image_Un [symmetric] Un_assoc)
  qed
qed

lemma insert_batches_nothing:
  "insert_batches date_column insert_error [] 0 0 store = (Inr 0, store)"
  by (simp add: insert_batches.simps)

lemma format_january:
  "formatDate \<lparr>ymd_year = 2024, ymd_month = 0, ymd_day = 1\<rparr> = ''2024-01-01''"
  "formatDate january_15 = ''2024-01-15''"
  "formatDate january_16 = ''2024-01-16''"
  by (simp_all add: formatDate_def january_15_def january_16_def string_of_int_def
      string_of_nat.simps digit_char_def pad2_def)

lemma windows_january:
  "monthly_windows january_15 24288 = [(''2024-01-01'', ''2024-01-15'')]"
  "monthly_windows january_16 24288 = [(''2024-01-01'', ''2024-01-16'')]"
proof -
  have "monthly_windows january_15 24288
      = [(formatDate \<lparr>ymd_year = 2024, ymd_month = 0, ymd_day = 1\<rparr>, formatDate january_15)]"
    by (simp add: january_15_def monthly_windows.simps date_less_def first_of_month_def
        days_in_month_def leap_year_def)
  then show "monthly_windows january_15 24288 = [(''2024-01-01'', ''2024-01-15'')]"
    by (simp add: format_january)
  have "monthly_windows january_16 24288
      = [(formatDate \<lparr>ymd_year = 2024, ymd_month = 0, ymd_day = 1\<rparr>, formatDate january_16)]"
    by (simp add: january_16_def monthly_windows.simps date_less_def first_of_month_def
        days_in_month_def leap_year_def)
  then show "monthly_windows january_16 24288 = [(''2024-01-01'', ''2024-01-16'')]"
    by (simp add: format_january)
qed

lemma example_windows:
  "generateMonthlyWindows (createdFrom example_config) january_15 = [(''2024-01-01'', ''2024-01-15'')]"
  "generateMonthlyWindows (createdFrom example_config) january_16 = [(''2024-01-01'', ''2024-01-16'')]"
  "generateMonthlyWindows (createdFrom floor_config) january_15 = [(''2024-01-01'', ''2024-01-15'')]"
  "generateMonthlyWindows (createdFrom dated_floor_config) january_15
     = [(''2024-01-01'', ''2024-01-15'')]"
  by (simp_all add: generateMonthlyWindows_def example_config_def floor_config_def
      dated_floor_config_def windows_january)

lemma star_texts:
  "string_of_int 100 = ''100''" "string_of_int 200 = ''200''" "string_of_int 201 = ''201''"
  "string_of_int 500 = ''500''" "string_of_int 501 = ''501''" "string_of_int 1000 = ''1000''"
  "string_of_int 1001 = ''1001''" "string_of_int 5000 = ''5000''" "string_of_int 5001 = ''5001''"
  "string_of_int 20000 = ''20000''" "string_of_int 20001 = ''20001''"
  by (simp_all add: string_of_int_def string_of_nat.simps digit_char_def)

lemma iso_dates:
  "iso_date_column ''2024-01-01'' = ''2024-01-01''"
  "iso_date_column ''2024-01-15'' = ''2024-01-15''"
  "iso_date_column ''2023-06-01'' = ''2023-06-01''"
  "iso_date_column ''2023-6-1'' = ''2023-06-01''"
  by (simp_all add: iso_date_column_def number_of_text_def pad_zeros_def string_of_nat.simps
      digit_char_def)

lemma window_candidates:
  assumes "starsMin config = 100"
  shows "map fst (candidates config [(f, d)])
     = [f @ ''|'' @ d @ ''|100|200|'' @ string_or_null_text (pushedAfter config),
        f @ ''|'' @ d @ ''|201|500|'' @ string_or_null_text (pushedAfter config),
        f @ ''|'' @ d @ ''|501|1000|'' @ string_or_null_text (pushedAfter config),
        f @ ''|'' @ d @ ''|1001|5000|'' @ string_or_null_text (pushedAfter config),
        f @ ''|'' @ d @ ''|5001|20000|'' @ string_or_null_text (pushedAfter config),
        f @ ''|'' @ d @ ''|20001|null|'' @ string_or_null_text (pushedAfter config)]"
  using assms
  by (simp add: candidates_def List.map_filter_simps DEFAULT_STAR_BANDS_def candidate_def
      Let_def number_or_null_text_def number_or_null_def falsy_number_def star_texts)

lemma window_stored_keys:
  assumes "starsMin config = 100"
  shows "map (\<lambda>c. existing_key (new_row date_column 0 (snd c))) (candidates config [(f, d)])
     = [date_column f @ ''|'' @ date_column d @ ''|100|200|''
          @ string_or_null_text (map_option date_column (string_or_null (pushedAfter config))),
        date_column f @ ''|'' @ date_column d @ ''|201|500|''
          @ string_or_null_text (map_option date_column (string_or_null (pushedAfter config))),
        date_column f @ ''|'' @ date_column d @ ''|501|1000|''
          @ string_or_null_text (map_option date_column (string_or_null (pushedAfter config))),
        date_column f @ ''|'' @ date_column d @ ''|1001|5000|''
          @ string_or_null_text (map_option date_column (string_or_null (pushedAfter config))),
        date_column f @ ''|'' @ date_column d @ ''|5001|20000|''
          @ string_or_null_text (map_option date_column (string_or_null (pushedAfter config))),
        date_column f @ ''|'' @ date_column d @ ''|20001|null|''
          @ string_or_null_text (map_option date_column (string_or_null (pushedAfter config)))]"
  using assms
  by (simp add: candidates_def List.map_filter_simps DEFAULT_STAR_BANDS_def candidate_def
      Let_def number_or_null_text_def number_or_null_def falsy_number_def star_texts
      existing_key_def new_row_def)

lemma insert_rows_append:
  "insert_rows date_column (insert_rows date_column store xs) ys
     = insert_rows date_column store (xs @ ys)"
  by (induction xs arbitrary: store) simp_all

lemma insert_batches_all_ok:
  "(\<And>b. insert_error b = None) \<Longrightarrow>
   insert_batches date_column insert_error rows i created store
     = (Inr (created + (length rows - i)), insert_rows date_column store (drop i rows))"
proof (induction date_column insert_error rows i created store rule: insert_batches.induct)
  case (1 date_column insert_error tasksToInsert i created store)
  show ?case
  proof (cases "i < length tasksToInsert")
    case False
    then show ?thesis
      by (simp add: insert_batches.simps [of date_column insert_error tasksToInsert i])
  next
    case True
    define batch where "batch = take 500 (drop i tasksToInsert)"
    have ok: "insert_error (i div 500) = None" by (rule "1.prems")
    have rest: "drop (i + 500) tasksToInsert = drop 500 (drop i tasksToInsert)"
      by (simp add: add.commute)
    have "insert_batches date_column insert_error tasksToInsert i created store
        = insert_batches date_column insert_error tasksToInsert (i + 500) (created + length batch)
            (insert_rows date_column store batch)"
      using True
      by (simp add: insert_batches.simps [of date_column insert_error tasksToInsert i] ok batch_def)
    also have "\<dots> = (Inr (created + length batch + (length tasksToInsert - (i + 500))),
                        insert_rows date_column (insert_rows date_column store batch)
                          (drop (i + 500) tasksToInsert))"
      by (rule "1.IH" [OF True batch_def ok "1.prems"])
    also have "insert_rows date_column (insert_rows date_column store batch)
                 (drop (i + 500) tasksToInsert)
        = insert_rows date_column store (drop i tasksToInsert)"
      unfolding insert_rows_append rest batch_def by (simp only: append_take_drop_id)
    also have "created + length batch + (length tasksToInsert - (i + 500))
        = created + (length tasksToInsert - i)"
      using True by (auto simp: batch_def min_def)
    finally show ?thesis .
  qed
qed

lemma seedTasks_no_error:
  "seedTasks date_column no_insert_error today config store
     = (Inr (length (filter (\<lambda>k. k \<notin> existing_key ` set store)
                      (map fst (candidates config
                         (generateMonthlyWindows (createdFrom config) today)))),
             length (filter (\<lambda>k. k \<in> existing_key ` set store)
                      (map fst (candidates config
                         (generateMonthlyWindows (createdFrom config) today))))),
        insert_rows date_column store
          (map snd (filter (\<lambda>c. fst c \<notin> existing_key ` set store)
                      (candidates config (generateMonthlyWindows (createdFrom config) today)))))"
proof -
  have ok: "\<And>b. no_insert_error b = None" by (simp add: no_insert_error_def)
  show ?thesis
    by (simp add: seedTasks_def Let_def insert_batches_all_ok [OF ok] filter_map comp_def)
qed

lemma seedTasks_first_run_keys:
  "existing_key ` set (snd (seedTasks date_column no_insert_error today config []))
     = set (map (\<lambda>c. existing_key (new_row date_column 0 (snd c)))
              (candidates config (generateMonthlyWindows (createdFrom config) today)))"
  by (simp add: seedTasks_no_error insert_rows_keys image_image)

text \<open>
  C8, as the code has it. When a run of \<open>seedTasks\<close> has returned, a second run with the
  same configuration on the same day of the clock, on the table the first run left,
  creates no task and skips every candidate, and leaves the table as it is, whatever the
  store would answer to an insert; provided the store gives the dates of the run back as
  they were written: the two dates of every window, and the pushed-after floor if there is
  one.
\<close>

theorem seedTasks_second_run_creates_nothing:
  assumes run: "seedTasks date_column insert_error today config store = (Inr counts, store1)"
    and windows_kept:
      "\<And>w. w \<in> set (generateMonthlyWindows (createdFrom config) today) \<Longrightarrow>
            date_column (fst w) = fst w \<and> date_column (snd w) = snd w"
    and floor_kept: "\<And>s. string_or_null (pushedAfter config) = Some s \<Longrightarrow> date_column s = s"
  shows "seedTasks date_column insert_error' today config store1
           = (Inr (0, length (candidates config
                                (generateMonthlyWindows (createdFrom config) today))),
              store1)"
proof -
  define cands where "cands = candidates config (generateMonthlyWindows (createdFrom config) today)"
  define K0 where "K0 = set (map existing_key store)"
  define K1 where "K1 = set (map existing_key store1)"
  from run obtain created where
    first: "insert_batches date_column insert_error
              (map snd (filter (\<lambda>c. fst c \<notin> K0) cands)) 0 0 store
              = (Inr created, store1)"
    by (auto simp: seedTasks_def Let_def cands_def K0_def split: prod.splits sum.splits)
  have keys: "K1 = K0 \<union> (\<lambda>r. existing_key (new_row date_column 0 r))
                        ` set (map snd (filter (\<lambda>c. fst c \<notin> K0) cands))"
    using insert_batches_keys [OF first] by (simp add: K0_def K1_def)
  have all_present: "fst c \<in> K1" if c: "c \<in> set cands" for c
  proof (cases "fst c \<in> K0")
    case True
    then show ?thesis by (simp add: keys)
  next
    case False
    have "existing_key (new_row date_column 0 (snd c)) = fst c"
      using c windows_kept floor_kept unfolding cands_def by (intro candidates_key) auto
    moreover have "snd c \<in> set (map snd (filter (\<lambda>c. fst c \<notin> K0) cands))"
      using c False by auto
    ultimately show ?thesis unfolding keys by force
  qed
  have none: "filter (\<lambda>c. fst c \<notin> K1) cands = []"
    using all_present by (simp add: filter_empty_conv)
  have every: "filter (\<lambda>c. fst c \<in> K1) cands = cands"
    using all_present by (simp add: filter_id_conv)
  have "seedTasks date_column insert_error' today config store1
      = (case insert_batches date_column insert_error'
                (map snd (filter (\<lambda>c. fst c \<notin> K1) cands)) 0 0 store1 of
           (Inl msg, store') \<Rightarrow> (Inl msg, store')
         | (Inr created, store') \<Rightarrow>
             (Inr (created, length (filter (\<lambda>c. fst c \<in> K1) cands)), store'))"
    unfolding seedTasks_def Let_def cands_def K1_def ..
  also have "\<dots> = (Inr (0, length cands), store1)"
    by (simp add: none every insert_batches_nothing)
  finally show ?thesis unfolding cands_def .
qed

theorem seedTasks_second_run_creates_nothing_witness:
  "fst (seedTasks iso_date_column no_insert_error january_15 dated_floor_config []) = Inr (6, 0)
   \<and> iso_date_column ''2024-01-01'' = ''2024-01-01''
   \<and> iso_date_column ''2024-01-15'' = ''2024-01-15''
   \<and> string_or_null (pushedAfter dated_floor_config) = Some ''2023-06-01''
   \<and> iso_date_column ''2023-06-01'' = ''2023-06-01''
   \<and> seedTasks iso_date_column no_insert_error january_15 dated_floor_config
         (snd (seedTasks iso_date_column no_insert_error january_15 dated_floor_config []))
       = (Inr (0, 6),
          snd (seedTasks iso_date_column no_insert_error january_15 dated_floor_config []))"
proof -
  have min: "starsMin dated_floor_config = 100"
    by (simp add: dated_floor_config_def example_config_def)
  have floor: "string_or_null (pushedAfter dated_floor_config) = Some ''2023-06-01''"
    by (simp add: dated_floor_config_def string_or_null_def falsy_string_def)
  have n: "length (candidates dated_floor_config
             (generateMonthlyWindows (createdFrom dated_floor_config) january_15)) = 6"
    using arg_cong [OF window_candidates [OF min, of "''2024-01-01''" "''2024-01-15''"], of length]
    by (simp add: example_windows)
  have first: "fst (seedTasks iso_date_column no_insert_error january_15 dated_floor_config [])
      = Inr (6, 0)"
    using n by (simp add: seedTasks_no_error)
  then have run: "seedTasks iso_date_column no_insert_error january_15 dated_floor_config []
      = (Inr (6, 0),
         snd (seedTasks iso_date_column no_insert_error january_15 dated_floor_config []))"
    by (metis prod.collapse)
  have windows_kept: "iso_date_column (fst w) = fst w \<and> iso_date_column (snd w) = snd w"
    if "w \<in> set (generateMonthlyWindows (createdFrom dated_floor_config) january_15)" for w
    using that by (auto simp: example_windows iso_dates)
  have floor_kept: "iso_date_column s = s"
    if "string_or_null (pushedAfter dated_floor_config) = Some s" for s
    using that floor by (auto simp: iso_dates)
  from seedTasks_second_run_creates_nothing
         [OF run windows_kept floor_kept, of no_insert_error] n
  have "seedTasks iso_date_column no_insert_error january_15 dated_floor_config
         (snd (seedTasks iso_date_column no_insert_error january_15 dated_floor_config []))
       = (Inr (0, 6),
          snd (seedTasks iso_date_column no_insert_error january_15 dated_floor_config []))"
    by simp
  with first floor iso_dates show ?thesis by simp
qed

text \<open>
  Without the same day the claim fails: the window of the current month ends today, so a
  second run one day later finds none of its six candidates in the table and creates six
  tasks. And it fails on the same day for a pushed-after floor written \<open>2023-6-1\<close>: the
  store gives \<open>2023-06-01\<close> back, no key read from the table is a key of a candidate, and
  the second run creates the six tasks again.
\<close>

theorem seedTasks_second_run_counterexample:
  "fst (seedTasks iso_date_column no_insert_error january_16 example_config
          (snd (seedTasks iso_date_column no_insert_error january_15 example_config [])))
     = Inr (6, 0)
   \<and> fst (seedTasks iso_date_column no_insert_error january_15 floor_config
          (snd (seedTasks iso_date_column no_insert_error january_15 floor_config [])))
     = Inr (6, 0)"
proof -
  have min: "starsMin example_config = 100" "starsMin floor_config = 100"
    by (simp_all add: example_config_def floor_config_def)
  have floors: "pushedAfter example_config = None" "pushedAfter floor_config = Some ''2023-6-1''"
    by (simp_all add: example_config_def floor_config_def)
  have texts: "string_or_null_text None = ''null''"
    "string_or_null_text (Some ''2023-6-1'') = ''2023-6-1''"
    "string_or_null_text (map_option iso_date_column (string_or_null None)) = ''null''"
    "string_or_null_text (map_option iso_date_column (string_or_null (Some ''2023-6-1'')))
       = ''2023-06-01''"
    by (simp_all add: string_or_null_text_def string_or_null_def falsy_string_def iso_dates)
  have later: "fst (seedTasks iso_date_column no_insert_error january_16 example_config
          (snd (seedTasks iso_date_column no_insert_error january_15 example_config [])))
     = Inr (6, 0)"
    unfolding seedTasks_no_error [of _ january_16] seedTasks_first_run_keys example_windows
      window_candidates [OF min(1)] window_stored_keys [OF min(1)] floors texts iso_dates
    by simp
  have floor: "fst (seedTasks iso_date_column no_insert_error january_15 floor_config
          (snd (seedTasks iso_date_column no_insert_error january_15 floor_config [])))
     = Inr (6, 0)"
    unfolding seedTasks_no_error [of _ january_15 floor_config "snd _"] seedTasks_first_run_keys
      example_windows window_candidates [OF min(2)] window_stored_keys [OF min(2)] floors texts
      iso_dates
    by simp
  from later floor show ?thesis by simp
qed

section \<open>Properties of the shared-secret check\<close>

text \<open>
  C9. With \<open>CRON_SECRET\<close> unset, both endpoints answer 401 whatever the \<open>secret\<close>
  parameter is, and issue no operation on the store.
\<close>

theorem cron_secret_unset_is_unauthorized:
  "GET_discover None secret handler = \<lparr>http_status = 401, store_operations = []\<rparr>
   \<and> GET_score None secret handler' = \<lparr>http_status = 401, store_operations = []\<rparr>"
  by (simp add: GET_discover_def GET_score_def falsy_string_def)

text \<open>The check lets a request with the configured secret through.\<close>

lemma matching_secret_runs_handler:
  "s \<noteq> [] \<Longrightarrow> GET_discover (Some s) (Some s) handler = handler
                \<and> GET_score (Some s) (Some s) handler' = handler'"
  by (simp add: GET_discover_def GET_score_def falsy_string_def)

end
